theory Spec2Isabelle
  imports Complex_Main
begin

section \<open>Aave V3 stress simulator: data model\<close>

text \<open>
  The two source files, \<^verbatim>\<open>app.py\<close> (interactive driver) and \<^verbatim>\<open>aave_simulation.py\<close>
  (batch script), each carry a copy of the engine. Python floats are modelled as
  \<^typ>\<open>real\<close> (exact arithmetic, no rounding); the one non-finite value the code produces on
  purpose, \<^verbatim>\<open>float('inf')\<close>, is a constructor of its own. A float division whose divisor is
  zero raises \<^verbatim>\<open>ZeroDivisionError\<close> in Python and is a branch of the model.
\<close>

datatype error = ZeroDivisionError

datatype hf = Inf | Fin real

text \<open>\<^verbatim>\<open>hf < x\<close> for a float \<^verbatim>\<open>x\<close>: infinity is below nothing.\<close>

fun hf_lt :: "hf \<Rightarrow> real \<Rightarrow> bool" where
  "hf_lt Inf x = False"
| "hf_lt (Fin h) x = (h < x)"

text \<open>\<^verbatim>\<open>hf >= x\<close>.\<close>

fun hf_ge :: "hf \<Rightarrow> real \<Rightarrow> bool" where
  "hf_ge Inf x = True"
| "hf_ge (Fin h) x = (x \<le> h)"

text \<open>Strict order on health factors, infinity on top.\<close>

fun hf_less :: "hf \<Rightarrow> hf \<Rightarrow> bool" where
  "hf_less (Fin a) (Fin b) = (a < b)"
| "hf_less (Fin a) Inf = True"
| "hf_less Inf b = False"

record ReserveConfig =
  name :: string
  price :: real
  lt :: real
  ltv :: real
  lb :: real
  decimals :: nat

text \<open>\<^verbatim>\<open>ReserveConfig("ETH", price, 0.825, 0.80, 0.05)\<close>, with \<^verbatim>\<open>decimals=18\<close> by default.\<close>

definition eth_reserve_init :: "real \<Rightarrow> ReserveConfig" where
  "eth_reserve_init p =
     \<lparr>name = ''ETH'', price = p, lt = 0.825, ltv = 0.80, lb = 0.05, decimals = 18\<rparr>"

text \<open>\<^verbatim>\<open>SimulationConfig\<close> of \<^verbatim>\<open>app.py\<close>: five constructor arguments, stored unchecked.\<close>

record SimulationConfig =
  eth_price_drop :: real
  market_liquidity_depth :: real
  num_users :: int
  whale_concentration :: real
  start_price :: real

record User =
  uid :: nat
  eth_collateral :: real
  usdc_debt :: real
  initial_eth :: real
  initial_debt :: real
  is_liquidated :: bool
  bad_debt :: real

text \<open>\<^verbatim>\<open>User.__init__(uid, eth_collateral, usdc_debt)\<close>.\<close>

definition User_init :: "nat \<Rightarrow> real \<Rightarrow> real \<Rightarrow> User" where
  "User_init i eth_amt debt_usd =
     \<lparr>uid = i, eth_collateral = eth_amt, usdc_debt = debt_usd, initial_eth = eth_amt,
      initial_debt = debt_usd, is_liquidated = False, bad_debt = 0\<rparr>"

text \<open>\<^verbatim>\<open>User.calculate_hf\<close> of \<^verbatim>\<open>app.py\<close>: both zero-debt guards return infinity.\<close>

definition calculate_hf :: "User \<Rightarrow> ReserveConfig \<Rightarrow> hf" where
  "calculate_hf u eth_reserve =
     (if usdc_debt u = 0 then Inf
      else
        let collateral_usd = eth_collateral u * price eth_reserve;
            debt_usd = usdc_debt u
        in if debt_usd = 0 then Inf
           else Fin ((collateral_usd * lt eth_reserve) / debt_usd))"

text \<open>One entry of \<^verbatim>\<open>self.history\<close> (a dict with these five keys).\<close>

record Snapshot =
  stage :: string
  eth_price :: real
  total_bad_debt :: real
  liquidatable_cnt :: nat
  total_collateral_usd :: real

text \<open>
  The state of a \<^verbatim>\<open>StressTestSimulation\<close> object. The log lines are formatted floats and
  are left out; no snapshot depends on them.
\<close>

record Sim =
  config :: SimulationConfig
  eth_reserve :: ReserveConfig
  users :: "User list"
  history :: "Snapshot list"

definition Sim_init :: "SimulationConfig \<Rightarrow> Sim" where
  "Sim_init cfg =
     \<lparr>config = cfg, eth_reserve = eth_reserve_init (start_price cfg), users = [], history = []\<rparr>"

section \<open>The random source\<close>

text \<open>
  \<^verbatim>\<open>numpy.random\<close> is an external library with one process-wide generator state. It is a
  parameter of the model: a state type \<open>'g\<close>, the state that \<^verbatim>\<open>np.random.seed(n)\<close> installs,
  and the two samplers, each returning the draw and the advanced state.
\<close>

record 'g np_random =
  rnd_seed :: "nat \<Rightarrow> 'g"
  rnd_uniform :: "real \<Rightarrow> real \<Rightarrow> 'g \<Rightarrow> real \<times> 'g"
  rnd_exponential :: "real \<Rightarrow> 'g \<Rightarrow> real \<times> 'g"

section \<open>Population generation (\<^verbatim>\<open>app.py\<close>)\<close>

text \<open>
  The whale test compares an integer index with a float product, and one unit in the last
  place of that product decides whether an index is a whale (100 * 0.07 is
  7.000000000000001 in Python). So this one product is rounded as the machine rounds it:
  to the nearest double, ties to even. \<open>float_exponent\<close> finds the binary exponent of a
  positive number, not below -1022 (the subnormal range); its first argument covers the
  exponent range of the format.
\<close>

fun float_exponent :: "nat \<Rightarrow> real \<Rightarrow> int \<Rightarrow> int" where
  "float_exponent 0 x e = e"
| "float_exponent (Suc k) x e =
     (if x < 1 then (if e \<le> - 1022 then e else float_exponent k (2 * x) (e - 1))
      else if 2 \<le> x then float_exponent k (x / 2) (e + 1)
      else e)"

definition pow2 :: "int \<Rightarrow> real" where
  "pow2 e = (if 0 \<le> e then 2 ^ nat e else 1 / 2 ^ nat (- e))"

definition round_half_even :: "real \<Rightarrow> int" where
  "round_half_even m =
     (let f = \<lfloor>m\<rfloor>; d = m - of_int f
      in if d < 1 / 2 then f else if 1 / 2 < d then f + 1 else if even f then f else f + 1)"

text \<open>The double nearest to a real: 53 significant bits, spacing \<open>2 ^ (e - 52)\<close>.\<close>

definition round_double :: "real \<Rightarrow> real" where
  "round_double x =
     (if x = 0 then 0
      else
        let a = \<bar>x\<bar>;
            e = float_exponent 2100 a 0;
            q = pow2 (e - 52)
        in sgn x * (of_int (round_half_even (a / q)) * q))"

text \<open>
  \<^verbatim>\<open>num_users * whale_concentration\<close>: the int is converted to a float, the concentration
  is the float the configuration holds (a real that is no double stands for the double
  nearest to it), and the product is rounded.
\<close>

definition float_product :: "int \<Rightarrow> real \<Rightarrow> real" where
  "float_product n w = round_double (round_double (of_int n) * round_double w)"

text \<open>\<^verbatim>\<open>is_whale = i < (num_users * whale_concentration)\<close>: an int against a float.\<close>

definition is_whale :: "SimulationConfig \<Rightarrow> nat \<Rightarrow> bool" where
  "is_whale cfg i = (real i < float_product (num_users cfg) (whale_concentration cfg))"

text \<open>The body of the \<^verbatim>\<open>for i in range(num_users)\<close> loop: two draws, then the back-solved debt.\<close>

definition generate_user ::
  "'g np_random \<Rightarrow> SimulationConfig \<Rightarrow> ReserveConfig \<Rightarrow> nat \<Rightarrow> 'g \<Rightarrow> error + (User \<times> 'g)" where
  "generate_user rng cfg r i g =
     (let (eth_amt, g1) =
            (if is_whale cfg i then rnd_uniform rng 1000 10000 g else rnd_exponential rng 10 g);
          (target_hf, g2) =
            (if is_whale cfg i then rnd_uniform rng 1.2 1.8 g1 else rnd_uniform rng 1.01 2.0 g1);
          collateral_usd = eth_amt * price r;
          max_borrow = collateral_usd * lt r
      in if target_hf = 0 then Inl ZeroDivisionError
         else Inr (User_init i eth_amt (max_borrow / target_hf), g2))"

fun generate_loop ::
  "'g np_random \<Rightarrow> SimulationConfig \<Rightarrow> ReserveConfig \<Rightarrow> nat list \<Rightarrow> User list \<Rightarrow> 'g
     \<Rightarrow> error + (User list \<times> 'g)" where
  "generate_loop rng cfg r [] us g = Inr (us, g)"
| "generate_loop rng cfg r (i # is) us g =
     (case generate_user rng cfg r i g of
        Inl e \<Rightarrow> Inl e
      | Inr (u, g') \<Rightarrow> generate_loop rng cfg r is (us @ [u]) g')"

text \<open>
  \<^verbatim>\<open>generate_users\<close>: reseed with 42 whatever the generator state was, then append one user
  per index of \<^verbatim>\<open>range(num_users)\<close> (empty for a count below one).
\<close>

definition generate_users :: "'g np_random \<Rightarrow> Sim \<Rightarrow> 'g \<Rightarrow> error + (Sim \<times> 'g)" where
  "generate_users rng s g =
     (case generate_loop rng (config s) (eth_reserve s) [0 ..< nat (num_users (config s))]
             (users s) (rnd_seed rng 42) of
        Inl e \<Rightarrow> Inl e
      | Inr (us, g') \<Rightarrow> Inr (s\<lparr>users := us\<rparr>, g'))"

section \<open>Snapshots\<close>

definition snapshot_state :: "Sim \<Rightarrow> string \<Rightarrow> Sim" where
  "snapshot_state s stg =
     s\<lparr>history := history s @
        [\<lparr>stage = stg,
          eth_price = price (eth_reserve s),
          total_bad_debt = sum_list (map bad_debt (users s)),
          liquidatable_cnt = length (filter (\<lambda>u. hf_lt (calculate_hf u (eth_reserve s)) 1.0) (users s)),
          total_collateral_usd =
            sum_list (map (\<lambda>u. eth_collateral u * price (eth_reserve s)) (users s))\<rparr>]\<rparr>"

text \<open>Decimal rendering of the round number inside \<^verbatim>\<open>f"Round {round_num}"\<close>.\<close>

fun str_nat :: "nat \<Rightarrow> string" where
  "str_nat n =
     (if n < 10 then [''0123456789'' ! n]
      else str_nat (n div 10) @ [''0123456789'' ! (n mod 10)])"

declare str_nat.simps [simp del]

section \<open>The liquidation cascade (\<^verbatim>\<open>app.py\<close>)\<close>

text \<open>
  The body of \<^verbatim>\<open>for user in liquidatable_users\<close>: the updated user and the collateral
  actually seized. Dividing by a zero price raises.
\<close>

definition liquidate_user :: "ReserveConfig \<Rightarrow> User \<Rightarrow> error + (User \<times> real)" where
  "liquidate_user r u =
     (let close_factor = 0.5;
          debt_to_cover = usdc_debt u * close_factor;
          bonus_multiplier = 1 + lb r;
          collateral_to_seize_usd = debt_to_cover * bonus_multiplier
      in if price r = 0 then Inl ZeroDivisionError
         else
           let collateral_to_seize_eth = collateral_to_seize_usd / price r
           in if collateral_to_seize_eth > eth_collateral u then
                (let actual_seized_eth = eth_collateral u;
                     value_taken = actual_seized_eth * price r
                 in if bonus_multiplier = 0 then Inl ZeroDivisionError
                    else
                      let remaining_debt = usdc_debt u - (value_taken / bonus_multiplier)
                      in Inr (u\<lparr>bad_debt := max 0 remaining_debt,
                                eth_collateral := 0,
                                usdc_debt := 0\<rparr>, actual_seized_eth))
              else
                Inr (u\<lparr>eth_collateral := eth_collateral u - collateral_to_seize_eth,
                       usdc_debt := usdc_debt u - debt_to_cover\<rparr>, collateral_to_seize_eth))"

text \<open>
  The users are objects shared between \<^verbatim>\<open>self.users\<close> and the selection, so the selection
  is kept as positions in \<^verbatim>\<open>self.users\<close> and a liquidation updates the user in place.
\<close>

definition liquidatable_users :: "ReserveConfig \<Rightarrow> User list \<Rightarrow> nat list" where
  "liquidatable_users r us = filter (\<lambda>i. hf_lt (calculate_hf (us ! i) r) 1.0) [0 ..< length us]"

text \<open>\<^verbatim>\<open>sort(key=lambda u: u.usdc_debt, reverse=True)\<close>: stable, largest debt first.\<close>

definition sort_by_debt :: "User list \<Rightarrow> nat list \<Rightarrow> nat list" where
  "sort_by_debt us is = sort_key (\<lambda>i. - usdc_debt (us ! i)) is"

fun liquidate_all ::
  "ReserveConfig \<Rightarrow> nat list \<Rightarrow> User list \<Rightarrow> real \<Rightarrow> error + (User list \<times> real)" where
  "liquidate_all r [] us vol = Inr (us, vol)"
| "liquidate_all r (i # is) us vol =
     (case liquidate_user r (us ! i) of
        Inl e \<Rightarrow> Inl e
      | Inr (u', actual_seized_eth) \<Rightarrow> liquidate_all r is (us[i := u']) (vol + actual_seized_eth))"

text \<open>
  Market impact after the liquidations of a round: the new state, the slippage and the
  volume of the round.
\<close>

definition market_impact :: "Sim \<Rightarrow> User list \<Rightarrow> real \<Rightarrow> error + (Sim \<times> real)" where
  "market_impact s us' round_liquidation_vol_eth =
     (let liquidation_value_sold = round_liquidation_vol_eth * price (eth_reserve s)
      in if market_liquidity_depth (config s) = 0 then Inl ZeroDivisionError
         else
           let slippage_pct = (liquidation_value_sold / market_liquidity_depth (config s)) * 0.01
           in Inr (s\<lparr>users := us',
                     eth_reserve := (eth_reserve s)\<lparr>price := price (eth_reserve s) * (1 - slippage_pct)\<rparr>\<rparr>,
                   slippage_pct))"

text \<open>
  One pass through the body of the \<^verbatim>\<open>while True\<close> loop, for the round numbered
  \<open>round_num\<close>: \<open>None\<close> when the selection is empty (the first \<^verbatim>\<open>break\<close>), otherwise the
  state after the round's snapshot, the slippage and the volume of the round.
\<close>

definition cascade_round :: "Sim \<Rightarrow> nat \<Rightarrow> error + (Sim \<times> real \<times> real) option" where
  "cascade_round s round_num =
     (let sel = liquidatable_users (eth_reserve s) (users s)
      in if sel = [] then Inr None
         else
           case liquidate_all (eth_reserve s) (sort_by_debt (users s) sel) (users s) 0 of
             Inl e \<Rightarrow> Inl e
           | Inr (us', vol) \<Rightarrow>
               (case market_impact s us' vol of
                  Inl e \<Rightarrow> Inl e
                | Inr (s', slippage_pct) \<Rightarrow>
                    Inr (Some (snapshot_state s' (''Round '' @ str_nat round_num),
                               slippage_pct, vol))))"

text \<open>
  The \<^verbatim>\<open>while True\<close> loop. It has no bound in the source; the first argument counts the
  rounds still allowed, and \<open>None\<close> says they ran out.
\<close>

fun cascade :: "nat \<Rightarrow> Sim \<Rightarrow> nat \<Rightarrow> real \<Rightarrow> (error + Sim) option" where
  "cascade 0 s round_num total_liquidated_eth = None"
| "cascade (Suc fuel) s round_num total_liquidated_eth =
     (case cascade_round s (round_num + 1) of
        Inl e \<Rightarrow> Some (Inl e)
      | Inr None \<Rightarrow> Some (Inr s)
      | Inr (Some (s', slippage_pct, vol)) \<Rightarrow>
          if slippage_pct < 0.0001 then Some (Inr s')
          else cascade fuel s' (round_num + 1) (total_liquidated_eth + vol))"

text \<open>Phase 1 of \<^verbatim>\<open>run\<close>: the shock and its snapshot.\<close>

definition shock :: "Sim \<Rightarrow> Sim" where
  "shock s =
     (let original_price = price (eth_reserve s)
      in snapshot_state
           (s\<lparr>eth_reserve := (eth_reserve s)\<lparr>price := original_price * (1 - eth_price_drop (config s))\<rparr>\<rparr>)
           ''Post-Shock'')"

text \<open>\<^verbatim>\<open>StressTestSimulation(config).run()\<close>, giving the history it returns.\<close>

definition run ::
  "'g np_random \<Rightarrow> nat \<Rightarrow> SimulationConfig \<Rightarrow> 'g \<Rightarrow> (error + Snapshot list) option" where
  "run rng fuel cfg g =
     (case generate_users rng (Sim_init cfg) g of
        Inl e \<Rightarrow> Some (Inl e)
      | Inr (s, g') \<Rightarrow> map_option (map_sum id history) (cascade fuel (shock s) 0 0))"

section \<open>The batch script (\<^verbatim>\<open>aave_simulation.py\<close>)\<close>

text \<open>
  The batch script declares \<^verbatim>\<open>ReserveConfig\<close> and \<^verbatim>\<open>User\<close> with the same fields as
  \<^verbatim>\<open>app.py\<close>, so the records above serve both. Its \<^verbatim>\<open>SimulationConfig\<close> takes no
  argument and has no start price; every function of its engine is translated again
  from its own text, with the suffix \<open>_b\<close>.
\<close>

record SimulationConfig_b =
  eth_price_drop_b :: real
  market_liquidity_depth_b :: real
  gas_cost_usd :: real
  num_users_b :: int
  whale_concentration_b :: real

definition SimulationConfig_b_init :: SimulationConfig_b where
  "SimulationConfig_b_init =
     \<lparr>eth_price_drop_b = 0.30, market_liquidity_depth_b = 2000000, gas_cost_usd = 50.0,
      num_users_b = 1000, whale_concentration_b = 0.01\<rparr>"

text \<open>
  \<^verbatim>\<open>User.calculate_hf\<close> of the batch script: two more locals
  (\<^verbatim>\<open>collateral_value_eth\<close>, \<^verbatim>\<open>collateral_risk_adjusted\<close>) that the result does not use.
\<close>

definition calculate_hf_b :: "User \<Rightarrow> ReserveConfig \<Rightarrow> hf" where
  "calculate_hf_b u r =
     (if usdc_debt u = 0 then Inf
      else
        let collateral_value_eth = eth_collateral u * price r;
            collateral_risk_adjusted = collateral_value_eth * lt r;
            collateral_usd = eth_collateral u * price r;
            debt_usd = usdc_debt u
        in if debt_usd = 0 then Inf
           else Fin ((collateral_usd * lt r) / debt_usd))"

record Sim_b =
  config_b :: SimulationConfig_b
  eth_reserve_b :: ReserveConfig
  users_b :: "User list"
  history_b :: "Snapshot list"

text \<open>\<^verbatim>\<open>StressTestSimulation()\<close> of the batch script: the reserve starts at 2000.0.\<close>

definition Sim_b_init :: Sim_b where
  "Sim_b_init =
     \<lparr>config_b = SimulationConfig_b_init, eth_reserve_b = eth_reserve_init 2000.0,
      users_b = [], history_b = []\<rparr>"

definition is_whale_b :: "SimulationConfig_b \<Rightarrow> nat \<Rightarrow> bool" where
  "is_whale_b cfg i = (real i < float_product (num_users_b cfg) (whale_concentration_b cfg))"

definition generate_user_b ::
  "'g np_random \<Rightarrow> SimulationConfig_b \<Rightarrow> ReserveConfig \<Rightarrow> nat \<Rightarrow> 'g \<Rightarrow> error + (User \<times> 'g)" where
  "generate_user_b rng cfg r i g =
     (let (eth_amt, g1) =
            (if is_whale_b cfg i then rnd_uniform rng 1000 10000 g else rnd_exponential rng 10 g);
          (target_hf, g2) =
            (if is_whale_b cfg i then rnd_uniform rng 1.2 1.8 g1 else rnd_uniform rng 1.01 2.0 g1);
          collateral_usd = eth_amt * price r;
          max_borrow = collateral_usd * lt r
      in if target_hf = 0 then Inl ZeroDivisionError
         else Inr (User_init i eth_amt (max_borrow / target_hf), g2))"

fun generate_loop_b ::
  "'g np_random \<Rightarrow> SimulationConfig_b \<Rightarrow> ReserveConfig \<Rightarrow> nat list \<Rightarrow> User list \<Rightarrow> 'g
     \<Rightarrow> error + (User list \<times> 'g)" where
  "generate_loop_b rng cfg r [] us g = Inr (us, g)"
| "generate_loop_b rng cfg r (i # is) us g =
     (case generate_user_b rng cfg r i g of
        Inl e \<Rightarrow> Inl e
      | Inr (u, g') \<Rightarrow> generate_loop_b rng cfg r is (us @ [u]) g')"

definition generate_users_b :: "'g np_random \<Rightarrow> Sim_b \<Rightarrow> 'g \<Rightarrow> error + (Sim_b \<times> 'g)" where
  "generate_users_b rng s g =
     (case generate_loop_b rng (config_b s) (eth_reserve_b s) [0 ..< nat (num_users_b (config_b s))]
             (users_b s) (rnd_seed rng 42) of
        Inl e \<Rightarrow> Inl e
      | Inr (us, g') \<Rightarrow> Inr (s\<lparr>users_b := us\<rparr>, g'))"

definition snapshot_state_b :: "Sim_b \<Rightarrow> string \<Rightarrow> Sim_b" where
  "snapshot_state_b s stg =
     s\<lparr>history_b := history_b s @
        [\<lparr>stage = stg,
          eth_price = price (eth_reserve_b s),
          total_bad_debt = sum_list (map bad_debt (users_b s)),
          liquidatable_cnt =
            length (filter (\<lambda>u. hf_lt (calculate_hf_b u (eth_reserve_b s)) 1.0) (users_b s)),
          total_collateral_usd =
            sum_list (map (\<lambda>u. eth_collateral u * price (eth_reserve_b s)) (users_b s))\<rparr>]\<rparr>"

definition run_shock_phase :: "Sim_b \<Rightarrow> Sim_b" where
  "run_shock_phase s =
     (let original_price = price (eth_reserve_b s)
      in snapshot_state_b
           (s\<lparr>eth_reserve_b :=
                (eth_reserve_b s)\<lparr>price := original_price * (1 - eth_price_drop_b (config_b s))\<rparr>\<rparr>)
           ''Post-Shock'')"

definition liquidate_user_b :: "ReserveConfig \<Rightarrow> User \<Rightarrow> error + (User \<times> real)" where
  "liquidate_user_b r u =
     (let close_factor = 0.5;
          debt_to_cover = usdc_debt u * close_factor;
          bonus_multiplier = 1 + lb r;
          collateral_to_seize_usd = debt_to_cover * bonus_multiplier
      in if price r = 0 then Inl ZeroDivisionError
         else
           let collateral_to_seize_eth = collateral_to_seize_usd / price r
           in if collateral_to_seize_eth > eth_collateral u then
                (let actual_seized_eth = eth_collateral u;
                     value_taken = actual_seized_eth * price r
                 in if bonus_multiplier = 0 then Inl ZeroDivisionError
                    else
                      let remaining_debt = usdc_debt u - (value_taken / bonus_multiplier)
                      in Inr (u\<lparr>bad_debt := max 0 remaining_debt,
                                eth_collateral := 0,
                                usdc_debt := 0\<rparr>, actual_seized_eth))
              else
                (let actual_seized_eth = collateral_to_seize_eth
                 in Inr (u\<lparr>eth_collateral := eth_collateral u - actual_seized_eth,
                           usdc_debt := usdc_debt u - debt_to_cover\<rparr>, actual_seized_eth)))"

definition liquidatable_users_b :: "ReserveConfig \<Rightarrow> User list \<Rightarrow> nat list" where
  "liquidatable_users_b r us =
     filter (\<lambda>i. hf_lt (calculate_hf_b (us ! i) r) 1.0) [0 ..< length us]"

definition sort_by_debt_b :: "User list \<Rightarrow> nat list \<Rightarrow> nat list" where
  "sort_by_debt_b us is = sort_key (\<lambda>i. - usdc_debt (us ! i)) is"

fun liquidate_all_b ::
  "ReserveConfig \<Rightarrow> nat list \<Rightarrow> User list \<Rightarrow> real \<Rightarrow> error + (User list \<times> real)" where
  "liquidate_all_b r [] us vol = Inr (us, vol)"
| "liquidate_all_b r (i # is) us vol =
     (case liquidate_user_b r (us ! i) of
        Inl e \<Rightarrow> Inl e
      | Inr (u', actual_seized_eth) \<Rightarrow>
          liquidate_all_b r is (us[i := u']) (vol + actual_seized_eth))"

definition market_impact_b :: "Sim_b \<Rightarrow> User list \<Rightarrow> real \<Rightarrow> error + (Sim_b \<times> real)" where
  "market_impact_b s us' round_liquidation_vol_eth =
     (let liquidation_value_sold = round_liquidation_vol_eth * price (eth_reserve_b s)
      in if market_liquidity_depth_b (config_b s) = 0 then Inl ZeroDivisionError
         else
           let slippage_pct =
                 (liquidation_value_sold / market_liquidity_depth_b (config_b s)) * 0.01;
               prev_price = price (eth_reserve_b s)
           in Inr (s\<lparr>users_b := us',
                     eth_reserve_b :=
                       (eth_reserve_b s)\<lparr>price := price (eth_reserve_b s) * (1 - slippage_pct)\<rparr>\<rparr>,
                   slippage_pct))"

definition cascade_round_b :: "Sim_b \<Rightarrow> nat \<Rightarrow> error + (Sim_b \<times> real \<times> real) option" where
  "cascade_round_b s round_num =
     (let sel = liquidatable_users_b (eth_reserve_b s) (users_b s)
      in if sel = [] then Inr None
         else
           case liquidate_all_b (eth_reserve_b s) (sort_by_debt_b (users_b s) sel) (users_b s) 0 of
             Inl e \<Rightarrow> Inl e
           | Inr (us', vol) \<Rightarrow>
               (case market_impact_b s us' vol of
                  Inl e \<Rightarrow> Inl e
                | Inr (s', slippage_pct) \<Rightarrow>
                    Inr (Some (snapshot_state_b s' (''Round '' @ str_nat round_num),
                               slippage_pct, vol))))"

fun run_liquidation_cascade :: "nat \<Rightarrow> Sim_b \<Rightarrow> nat \<Rightarrow> real \<Rightarrow> (error + Sim_b) option" where
  "run_liquidation_cascade 0 s round_num total_liquidated_eth = None"
| "run_liquidation_cascade (Suc fuel) s round_num total_liquidated_eth =
     (case cascade_round_b s (round_num + 1) of
        Inl e \<Rightarrow> Some (Inl e)
      | Inr None \<Rightarrow> Some (Inr s)
      | Inr (Some (s', slippage_pct, vol)) \<Rightarrow>
          if slippage_pct < 0.0001 then Some (Inr s')
          else run_liquidation_cascade fuel s' (round_num + 1) (total_liquidated_eth + vol))"

text \<open>
  The \<^verbatim>\<open>__main__\<close> block up to the history that \<^verbatim>\<open>run_evaluation\<close> renders:
  \<^verbatim>\<open>generate_users\<close>, \<^verbatim>\<open>run_shock_phase\<close>, \<^verbatim>\<open>run_liquidation_cascade\<close>.
\<close>

definition main_b :: "'g np_random \<Rightarrow> nat \<Rightarrow> 'g \<Rightarrow> (error + Snapshot list) option" where
  "main_b rng fuel g =
     (case generate_users_b rng Sim_b_init g of
        Inl e \<Rightarrow> Some (Inl e)
      | Inr (s, g') \<Rightarrow>
          map_option (map_sum id history_b) (run_liquidation_cascade fuel (run_shock_phase s) 0 0))"

text \<open>The configuration of \<^verbatim>\<open>app.py\<close> that carries the batch script's constants.\<close>

definition batch_equivalent_config :: SimulationConfig where
  "batch_equivalent_config =
     \<lparr>eth_price_drop = 0.30, market_liquidity_depth = 2000000, num_users = 1000,
      whale_concentration = 0.01, start_price = 2000\<rparr>"

text \<open>
  The state of the batch script read as a state of \<^verbatim>\<open>app.py\<close>, whose reserve was
  built from a start price of 2000.
\<close>

definition embed_b :: "Sim_b \<Rightarrow> Sim" where
  "embed_b s =
     \<lparr>config =
        \<lparr>eth_price_drop = eth_price_drop_b (config_b s),
         market_liquidity_depth = market_liquidity_depth_b (config_b s),
         num_users = num_users_b (config_b s),
         whale_concentration = whale_concentration_b (config_b s),
         start_price = 2000\<rparr>,
      eth_reserve = eth_reserve_b s, users = users_b s, history = history_b s\<rparr>"

section \<open>Later rounds, and concrete inputs\<close>

text \<open>
  The state after \<open>k\<close> more passes through the loop body, whatever the convergence check
  said in between: every state the loop of \<^const>\<open>cascade\<close> can reach is one of these.
\<close>

fun later_rounds :: "nat \<Rightarrow> Sim \<Rightarrow> nat \<Rightarrow> Sim option" where
  "later_rounds 0 s round_num = Some s"
| "later_rounds (Suc k) s round_num =
     (case cascade_round s (round_num + 1) of
        Inr (Some (s', slippage_pct, vol)) \<Rightarrow> later_rounds k s' (round_num + 1)
      | _ \<Rightarrow> None)"

text \<open>
  A random source for concrete runs: seeding installs the seed as the state, a uniform
  draw is the midpoint of its interval, an exponential draw is its mean.
\<close>

definition midpoint_rng :: "nat np_random" where
  "midpoint_rng =
     \<lparr>rnd_seed = (\<lambda>n. n),
      rnd_uniform = (\<lambda>a b g. ((a + b) / 2, g + 1)),
      rnd_exponential = (\<lambda>scale g. (scale, g + 1))\<rparr>"

text \<open>One whale, a 50% shock, and a market depth of one dollar.\<close>

definition thin_market_config :: SimulationConfig where
  "thin_market_config =
     \<lparr>eth_price_drop = 0.5, market_liquidity_depth = 1, num_users = 1,
      whale_concentration = 1, start_price = 2000\<rparr>"

text \<open>One whale, a 50% shock, and the default depth of two million dollars.\<close>

definition deep_market_config :: SimulationConfig where
  "deep_market_config =
     \<lparr>eth_price_drop = 0.5, market_liquidity_depth = 2000000, num_users = 1,
      whale_concentration = 1, start_price = 2000\<rparr>"

text \<open>One whale, a 50% shock, and the depth at which the first round's slippage is 1.\<close>

definition exact_depth_config :: SimulationConfig where
  "exact_depth_config =
     \<lparr>eth_price_drop = 0.5, market_liquidity_depth = 31762.5, num_users = 1,
      whale_concentration = 1, start_price = 2000\<rparr>"

text \<open>One whale and a liquidity depth of minus two million dollars.\<close>

definition invalid_depth_config :: SimulationConfig where
  "invalid_depth_config =
     \<lparr>eth_price_drop = 0.5, market_liquidity_depth = - 2000000, num_users = 1,
      whale_concentration = 0.1, start_price = 2000\<rparr>"

text \<open>Three users and a whale concentration of 0.5, so that the product is 1.5.\<close>

definition mixed_config :: SimulationConfig where
  "mixed_config =
     \<lparr>eth_price_drop = 0, market_liquidity_depth = 2000000, num_users = 3,
      whale_concentration = 0.5, start_price = 2000\<rparr>"

text \<open>The widget values at which the rounding of the product shows: 100 users at 0.07.\<close>

definition hundred_config :: SimulationConfig where
  "hundred_config =
     \<lparr>eth_price_drop = 0.30, market_liquidity_depth = 2000000, num_users = 100,
      whale_concentration = 0.07, start_price = 2000\<rparr>"

text \<open>
  One whale, a 50% shock, and a depth of 14437.5: the slippage is 2.2 in the first round
  and 1.1 in the second, so the price goes from 1000 to -1200 and back up to 120.
\<close>

definition rebound_config :: SimulationConfig where
  "rebound_config =
     \<lparr>eth_price_drop = 0.5, market_liquidity_depth = 14437.5, num_users = 1,
      whale_concentration = 1, start_price = 2000\<rparr>"

text \<open>Two users and a whale concentration of 0.75, so that the product is 1.5.\<close>

definition split_config :: SimulationConfig where
  "split_config =
     \<lparr>eth_price_drop = 0, market_liquidity_depth = 2000000, num_users = 2,
      whale_concentration = 0.75, start_price = 2000\<rparr>"

text \<open>
  The deep-market run after its shock, and after its first round: the whale is liquidated
  partially and the price moves by 1.588125%.
\<close>

definition deep_shocked :: Sim where
  "deep_shocked =
     \<lparr>config = deep_market_config,
      eth_reserve = eth_reserve_init 1000,
      users = [User_init 0 5500 6050000],
      history =
        [\<lparr>stage = ''Post-Shock'', eth_price = 1000, total_bad_debt = 0,
          liquidatable_cnt = 1, total_collateral_usd = 5500000\<rparr>]\<rparr>"

definition deep_round_1 :: Sim where
  "deep_round_1 =
     \<lparr>config = deep_market_config,
      eth_reserve = eth_reserve_init (157459 / 160),
      users = [(User_init 0 5500 6050000)\<lparr>eth_collateral := 9295 / 4, usdc_debt := 3025000\<rparr>],
      history =
        [\<lparr>stage = ''Post-Shock'', eth_price = 1000, total_bad_debt = 0,
          liquidatable_cnt = 1, total_collateral_usd = 5500000\<rparr>,
         \<lparr>stage = ''Round 1'', eth_price = 157459 / 160, total_bad_debt = 0,
          liquidatable_cnt = 1, total_collateral_usd = 292716281 / 128\<rparr>]\<rparr>"

text \<open>
  The rebound run after its second round (the price is back above zero, at 120) and
  after its third, in which the whale is wiped out.
\<close>

definition rebound_round_2 :: Sim where
  "rebound_round_2 =
     \<lparr>config = rebound_config,
      eth_reserve = eth_reserve_init 120,
      users = [(User_init 0 5500 6050000)\<lparr>eth_collateral := 58355 / 16, usdc_debt := 1512500\<rparr>],
      history =
        [\<lparr>stage = ''Post-Shock'', eth_price = 1000, total_bad_debt = 0,
          liquidatable_cnt = 1, total_collateral_usd = 5500000\<rparr>,
         \<lparr>stage = ''Round 1'', eth_price = - 1200, total_bad_debt = 0,
          liquidatable_cnt = 1, total_collateral_usd = - 2788500\<rparr>,
         \<lparr>stage = ''Round 2'', eth_price = 120, total_bad_debt = 0,
          liquidatable_cnt = 1, total_collateral_usd = 875325 / 2\<rparr>]\<rparr>"

definition rebound_round_3 :: Sim where
  "rebound_round_3 =
     \<lparr>config = rebound_config,
      eth_reserve = eth_reserve_init (14634 / 175),
      users = [(User_init 0 5500 6050000)\<lparr>bad_debt := 7669750 / 7, eth_collateral := 0,
                                           usdc_debt := 0\<rparr>],
      history =
        [\<lparr>stage = ''Post-Shock'', eth_price = 1000, total_bad_debt = 0,
          liquidatable_cnt = 1, total_collateral_usd = 5500000\<rparr>,
         \<lparr>stage = ''Round 1'', eth_price = - 1200, total_bad_debt = 0,
          liquidatable_cnt = 1, total_collateral_usd = - 2788500\<rparr>,
         \<lparr>stage = ''Round 2'', eth_price = 120, total_bad_debt = 0,
          liquidatable_cnt = 1, total_collateral_usd = 875325 / 2\<rparr>,
         \<lparr>stage = ''Round 3'', eth_price = 14634 / 175, total_bad_debt = 7669750 / 7,
          liquidatable_cnt = 0, total_collateral_usd = 0\<rparr>]\<rparr>"

text \<open>
  A state at a price of 1000 whose first position has been wiped out (one unit of
  collateral against a debt of 4000) and whose second is liquidatable, and the state one
  round later.
\<close>

definition wiped_user :: User where
  "wiped_user =
     (User_init 0 1 4000)\<lparr>bad_debt := 64000 / 21, eth_collateral := 0, usdc_debt := 0\<rparr>"

definition wiped_state :: Sim where
  "wiped_state =
     \<lparr>config = deep_market_config,
      eth_reserve = eth_reserve_init 1000,
      users = [wiped_user, User_init 1 8 8250],
      history = []\<rparr>"

definition wiped_state_next :: Sim where
  "wiped_state_next =
     \<lparr>config = deep_market_config,
      eth_reserve = eth_reserve_init (31999307 / 32000),
      users = [wiped_user,
               (User_init 1 8 8250)\<lparr>eth_collateral := 587 / 160, usdc_debt := 4125\<rparr>],
      history =
        [\<lparr>stage = ''Round 1'', eth_price = 31999307 / 32000, total_bad_debt = 64000 / 21,
          liquidatable_cnt = 1, total_collateral_usd = 18783593209 / 5120000\<rparr>]\<rparr>"

text \<open>
  What holds of every position of a run that starts from a generated population at a
  positive price: no negative amount, and bad debt only on a position without debt.
\<close>

definition position_ok :: "User \<Rightarrow> bool" where
  "position_ok u =
     (0 \<le> eth_collateral u \<and> 0 \<le> usdc_debt u \<and> 0 \<le> bad_debt u \<and>
      (bad_debt u = 0 \<or> usdc_debt u = 0))"

section \<open>The loop over the selection, and one round\<close>

lemma market_impact_zero_depth:
  "market_liquidity_depth (config s) = 0 \<Longrightarrow> market_impact s us v = Inl ZeroDivisionError"
  by (simp add: market_impact_def Let_def)

lemma market_impact_ok:
  "market_liquidity_depth (config s) \<noteq> 0 \<Longrightarrow>
   market_impact s us v =
     Inr (s\<lparr>users := us,
            eth_reserve := (eth_reserve s)\<lparr>price := price (eth_reserve s) *
              (1 - (v * price (eth_reserve s) / market_liquidity_depth (config s)) * 0.01)\<rparr>\<rparr>,
          (v * price (eth_reserve s) / market_liquidity_depth (config s)) * 0.01)"
  by (simp add: market_impact_def Let_def)


lemma liquidate_all_length:
  "liquidate_all r is us vol = Inr (us', vol') \<Longrightarrow> length us' = length us"
proof (induction "is" arbitrary: us vol)
  case Nil
  then show ?case by simp
next
  case (Cons i "is")
  then show ?case by (auto split: sum.splits)
qed

lemma liquidate_all_untouched:
  "liquidate_all r is us vol = Inr (us', vol') \<Longrightarrow> j \<notin> set is \<Longrightarrow> us' ! j = us ! j"
proof (induction "is" arbitrary: us vol)
  case Nil
  then show ?case by simp
next
  case (Cons i "is")
  then show ?case by (auto split: sum.splits)
qed

lemma liquidate_all_touched:
  "liquidate_all r is us vol = Inr (us', vol') \<Longrightarrow> distinct is \<Longrightarrow> j \<in> set is \<Longrightarrow>
   j < length us \<Longrightarrow> \<exists>sz. liquidate_user r (us ! j) = Inr (us' ! j, sz)"
proof (induction "is" arbitrary: us vol)
  case Nil
  then show ?case by simp
next
  case (Cons i "is")
  from Cons.prems(1) obtain u' sz where
    step: "liquidate_user r (us ! i) = Inr (u', sz)" and
    rest: "liquidate_all r is (us[i := u']) (vol + sz) = Inr (us', vol')"
    by (auto split: sum.splits)
  show ?case
  proof (cases "j = i")
    case True
    with Cons.prems(2) have "i \<notin> set is" by simp
    from liquidate_all_untouched[OF rest this] have "us' ! i = (us[i := u']) ! i" .
    with Cons.prems(4) True step show ?thesis by simp
  next
    case False
    with Cons.prems have "j \<in> set is" "distinct is" "j < length (us[i := u'])" by simp_all
    from Cons.IH[OF rest this(2) this(1) this(3)] False show ?thesis by simp
  qed
qed

lemma set_liquidatable_users:
  "j \<in> set (liquidatable_users r us) \<longleftrightarrow> j < length us \<and> hf_lt (calculate_hf (us ! j) r) 1"
  by (auto simp: liquidatable_users_def)

lemma set_sort_by_debt: "set (sort_by_debt us is) = set is"
  by (simp add: sort_by_debt_def)

lemma distinct_selection: "distinct (sort_by_debt us (liquidatable_users r us))"
  by (simp add: sort_by_debt_def liquidatable_users_def)

lemma cascade_round_SomeD:
  assumes "cascade_round s n = Inr (Some (s', slip, vol))"
  obtains us' where
    "liquidatable_users (eth_reserve s) (users s) \<noteq> []"
    "liquidate_all (eth_reserve s)
        (sort_by_debt (users s) (liquidatable_users (eth_reserve s) (users s))) (users s) 0 = Inr (us', vol)"
    "market_liquidity_depth (config s) \<noteq> 0"
    "slip = (vol * price (eth_reserve s) / market_liquidity_depth (config s)) * 0.01"
    "users s' = us'"
    "config s' = config s"
    "eth_reserve s' = (eth_reserve s)\<lparr>price := price (eth_reserve s) * (1 - slip)\<rparr>"
proof -
  let ?sel = "liquidatable_users (eth_reserve s) (users s)"
  have sel: "?sel \<noteq> []"
    using assms by (auto simp: cascade_round_def Let_def)
  obtain us' v where la: "liquidate_all (eth_reserve s) (sort_by_debt (users s) ?sel) (users s) 0 = Inr (us', v)"
    using assms sel by (cases "liquidate_all (eth_reserve s) (sort_by_debt (users s) ?sel) (users s) 0")
      (auto simp: cascade_round_def Let_def)
  have mi: "(case market_impact s us' v of Inl e \<Rightarrow> Inl e
             | Inr (s1, sl) \<Rightarrow> Inr (Some (snapshot_state s1 (''Round '' @ str_nat n), sl, v)))
            = Inr (Some (s', slip, vol))"
    using assms sel la by (simp add: cascade_round_def Let_def)
  have depth: "market_liquidity_depth (config s) \<noteq> 0"
  proof
    assume "market_liquidity_depth (config s) = 0"
    from market_impact_zero_depth[OF this, of us' v] mi show False by simp
  qed
  let ?sl = "(v * price (eth_reserve s) / market_liquidity_depth (config s)) * 0.01"
  note mi2 = market_impact_ok[OF depth, of us' v]
  from mi have eqs: "v = vol" "slip = ?sl"
     "s' = snapshot_state (s\<lparr>users := us', eth_reserve := (eth_reserve s)\<lparr>price := price (eth_reserve s) * (1 - ?sl)\<rparr>\<rparr>) (''Round '' @ str_nat n)"
    unfolding mi2 sum.case prod.case sum.inject option.inject prod.inject by blast+
  show ?thesis
  proof (rule that[of us'])
    show "?sel \<noteq> []" by (rule sel)
    show "liquidate_all (eth_reserve s) (sort_by_debt (users s) ?sel) (users s) 0 = Inr (us', vol)"
      using la eqs(1) by simp
    show "market_liquidity_depth (config s) \<noteq> 0" by (rule depth)
    show "slip = (vol * price (eth_reserve s) / market_liquidity_depth (config s)) * 0.01"
      using eqs by simp
    show "users s' = us'" unfolding eqs(3) by (simp add: snapshot_state_def)
    show "config s' = config s" unfolding eqs(3) by (simp add: snapshot_state_def)
    show "eth_reserve s' = (eth_reserve s)\<lparr>price := price (eth_reserve s) * (1 - slip)\<rparr>"
      unfolding eqs(3) using eqs(2) by (simp add: snapshot_state_def)
  qed
qed

lemma cascade_round_user:
  assumes "cascade_round s n = Inr (Some (s', slip, vol))" and "j < length (users s)"
  shows "length (users s') = length (users s)"
    and "\<not> hf_lt (calculate_hf (users s ! j) (eth_reserve s)) 1 \<Longrightarrow> users s' ! j = users s ! j"
    and "hf_lt (calculate_hf (users s ! j) (eth_reserve s)) 1 \<Longrightarrow>
           \<exists>sz. liquidate_user (eth_reserve s) (users s ! j) = Inr (users s' ! j, sz)"
proof -
  from assms(1) obtain us' where
    la: "liquidate_all (eth_reserve s)
        (sort_by_debt (users s) (liquidatable_users (eth_reserve s) (users s))) (users s) 0 = Inr (us', vol)"
    and us': "users s' = us'"
    by (rule cascade_round_SomeD)
  show "length (users s') = length (users s)"
    using liquidate_all_length[OF la] us' by simp
  show "users s' ! j = users s ! j" if "\<not> hf_lt (calculate_hf (users s ! j) (eth_reserve s)) 1"
    using liquidate_all_untouched[OF la, of j] that us'
    by (simp add: set_sort_by_debt set_liquidatable_users)
  show "\<exists>sz. liquidate_user (eth_reserve s) (users s ! j) = Inr (users s' ! j, sz)"
    if "hf_lt (calculate_hf (users s ! j) (eth_reserve s)) 1"
    using liquidate_all_touched[OF la distinct_selection, of j] that us' assms(2)
    by (simp add: set_sort_by_debt set_liquidatable_users)
qed


lemma liquidate_user_partial:
  assumes "price r \<noteq> 0"
    and "\<not> eth_collateral u < (usdc_debt u * 0.5 * (1 + lb r)) / price r"
  shows "liquidate_user r u =
           Inr (u\<lparr>eth_collateral := eth_collateral u - (usdc_debt u * 0.5 * (1 + lb r)) / price r,
                  usdc_debt := usdc_debt u - usdc_debt u * 0.5\<rparr>,
                (usdc_debt u * 0.5 * (1 + lb r)) / price r)"
  using assms unfolding liquidate_user_def Let_def by simp

lemma liquidate_user_wipe:
  assumes "price r \<noteq> 0" and "1 + lb r \<noteq> 0"
    and "eth_collateral u < (usdc_debt u * 0.5 * (1 + lb r)) / price r"
  shows "liquidate_user r u =
           Inr (u\<lparr>bad_debt := max 0 (usdc_debt u - (eth_collateral u * price r) / (1 + lb r)),
                  eth_collateral := 0, usdc_debt := 0\<rparr>, eth_collateral u)"
  using assms unfolding liquidate_user_def Let_def by simp

lemma liquidate_user_InrD:
  assumes "liquidate_user r u = Inr (u', seized)"
  shows "price r \<noteq> 0"
  using assms unfolding liquidate_user_def Let_def by (auto split: if_splits)

lemma liquidate_user_wipe_InrD:
  assumes "liquidate_user r u = Inr (u', seized)"
    and "eth_collateral u < (usdc_debt u * 0.5 * (1 + lb r)) / price r"
  shows "1 + lb r \<noteq> 0"
  using assms unfolding liquidate_user_def Let_def by (auto split: if_splits)

lemma hf_lt_finite:
  assumes "hf_lt (calculate_hf u r) x"
  shows "usdc_debt u \<noteq> 0"
    and "calculate_hf u r = Fin (eth_collateral u * price r * lt r / usdc_debt u)"
  using assms by (auto simp: calculate_hf_def Let_def split: if_splits)

lemma partial_algebra:
  fixes c p l d b :: real
  assumes "p \<noteq> 0" and "d \<noteq> 0"
  shows "((c - (d * 0.5 * (1 + b)) / p) * p * l) / (d - d * 0.5) =
           2 * (c * p * l / d) - (1 + b) * l"
proof -
  have "(c - (d * 0.5 * (1 + b)) / p) * p = c * p - d * 0.5 * (1 + b)"
    using assms by (simp add: field_simps)
  moreover have "d - d * 0.5 = d / 2" by simp
  ultimately have "((c - (d * 0.5 * (1 + b)) / p) * p * l) / (d - d * 0.5) =
                     ((c * p - d * 0.5 * (1 + b)) * l) / (d / 2)"
    by simp
  also have "\<dots> = 2 * (c * p * l / d) - (1 + b) * l"
    using assms by (simp add: field_simps)
  finally show ?thesis .
qed

section \<open>Rounds after rounds\<close>

lemma shock_users: "users (shock s) = users s"
  and shock_lb: "lb (eth_reserve (shock s)) = lb (eth_reserve s)"
  and shock_price: "price (eth_reserve (shock s)) = price (eth_reserve s) * (1 - eth_price_drop (config s))"
  by (simp_all add: shock_def snapshot_state_def Let_def)

lemma terminal_never_liquidatable: "usdc_debt u = 0 \<Longrightarrow> \<not> hf_lt (calculate_hf u r) x"
  by (simp add: calculate_hf_def)

lemma cascade_round_reserve:
  assumes "cascade_round s n = Inr (Some (s', slip, vol))"
  shows "price (eth_reserve s') = price (eth_reserve s) * (1 - slip)"
    and "lb (eth_reserve s') = lb (eth_reserve s)"
    and "lt (eth_reserve s') = lt (eth_reserve s)"
  using assms by (auto elim!: cascade_round_SomeD)

lemma later_rounds_Suc:
  assumes "later_rounds (Suc k) s n = Some t"
  obtains s' slip vol where "cascade_round s (n + 1) = Inr (Some (s', slip, vol))"
    and "later_rounds k s' (n + 1) = Some t"
  using assms by (auto split: sum.splits option.splits)

lemma later_rounds_terminal:
  "later_rounds k s n = Some t \<Longrightarrow> j < length (users s) \<Longrightarrow> usdc_debt (users s ! j) = 0 \<Longrightarrow>
   users t ! j = users s ! j \<and> length (users t) = length (users s)"
proof (induction k arbitrary: s n)
  case 0
  then show ?case by simp
next
  case (Suc k)
  from Suc.prems(1) obtain s' slip vol where
    rd: "cascade_round s (n + 1) = Inr (Some (s', slip, vol))" and
    rest: "later_rounds k s' (n + 1) = Some t"
    by (rule later_rounds_Suc)
  have same: "users s' ! j = users s ! j"
    using cascade_round_user(2)[OF rd Suc.prems(2)] terminal_never_liquidatable[OF Suc.prems(3)]
    by simp
  have len: "length (users s') = length (users s)"
    using cascade_round_user(1)[OF rd Suc.prems(2)] .
  from Suc.IH[OF rest] same len Suc.prems show ?case by simp
qed

lemma later_rounds_add:
  "later_rounds i s n = Some m \<Longrightarrow> later_rounds (i + k) s n = later_rounds k m (n + i)"
proof (induction i arbitrary: s n)
  case 0
  then show ?case by simp
next
  case (Suc i)
  from Suc.prems obtain s' slip vol where
    rd: "cascade_round s (n + 1) = Inr (Some (s', slip, vol))" and
    rest: "later_rounds i s' (n + 1) = Some m"
    by (rule later_rounds_Suc)
  from Suc.IH[OF rest] rd show ?case by simp
qed

lemma cascade_final_is_later_round:
  "cascade fuel s n tot = Some (Inr t) \<Longrightarrow> \<exists>k. later_rounds k s n = Some t"
proof (induction fuel arbitrary: s n tot)
  case 0
  then show ?case by simp
next
  case (Suc fuel)
  show ?case
  proof (cases "cascade_round s (n + 1)")
    case (Inl e)
    with Suc.prems show ?thesis by simp
  next
    case (Inr res)
    show ?thesis
    proof (cases res)
      case None
      with Inr Suc.prems have "t = s" by simp
      then have "later_rounds 0 s n = Some t" by simp
      then show ?thesis by blast
    next
      case (Some trip)
      obtain s' slip vol where trip: "trip = (s', slip, vol)" by (cases trip)
      show ?thesis
      proof (cases "slip < 0.0001")
        case True
        with Inr Some trip Suc.prems have "t = s'" by simp
        with Inr Some trip have "later_rounds (Suc 0) s n = Some t" by simp
        then show ?thesis by blast
      next
        case False
        with Inr Some trip Suc.prems have "cascade fuel s' (n + 1) (tot + vol) = Some (Inr t)"
          by simp
        from Suc.IH[OF this] obtain k where "later_rounds k s' (n + 1) = Some t" by blast
        with Inr Some trip have "later_rounds (Suc k) s n = Some t" by simp
        then show ?thesis by blast
      qed
    qed
  qed
qed

section \<open>The volume of a round\<close>

lemma sum_list_map_update:
  fixes f :: "'a \<Rightarrow> real"
  shows "i < length xs \<Longrightarrow>
         sum_list (map f (xs[i := y])) = sum_list (map f xs) - f (xs ! i) + f y"
proof (induction xs arbitrary: i)
  case Nil
  then show ?case by simp
next
  case (Cons x xs)
  then show ?case by (cases i) simp_all
qed

lemma liquidate_user_seized:
  assumes "liquidate_user r u = Inr (u', seized)"
  shows "seized = eth_collateral u - eth_collateral u'"
  using assms unfolding liquidate_user_def Let_def
  by (auto split: if_splits)

lemma liquidate_all_volume:
  "liquidate_all r is us vol = Inr (us', vol') \<Longrightarrow> \<forall>i\<in>set is. i < length us \<Longrightarrow>
   vol' = vol + (sum_list (map eth_collateral us) - sum_list (map eth_collateral us'))"
proof (induction "is" arbitrary: us vol)
  case Nil
  then show ?case by simp
next
  case (Cons i "is")
  from Cons.prems(1) obtain u' sz where
    step: "liquidate_user r (us ! i) = Inr (u', sz)" and
    rest: "liquidate_all r is (us[i := u']) (vol + sz) = Inr (us', vol')"
    by (auto split: sum.splits)
  have i: "i < length us" using Cons.prems(2) by simp
  have "\<forall>k\<in>set is. k < length (us[i := u'])" using Cons.prems(2) by simp
  from Cons.IH[OF rest this]
  have "vol' = vol + sz + (sum_list (map eth_collateral (us[i := u'])) - sum_list (map eth_collateral us'))"
    by simp
  moreover have "sz = eth_collateral (us ! i) - eth_collateral u'"
    using step by (rule liquidate_user_seized)
  moreover have "sum_list (map eth_collateral (us[i := u'])) =
                   sum_list (map eth_collateral us) - eth_collateral (us ! i) + eth_collateral u'"
    using i by (rule sum_list_map_update)
  ultimately show ?case by simp
qed

lemma cascade_round_volume:
  assumes "cascade_round s n = Inr (Some (s', slip, vol))"
  shows "vol = sum_list (map eth_collateral (users s)) - sum_list (map eth_collateral (users s'))"
    and "slip = (vol * price (eth_reserve s) / market_liquidity_depth (config s)) * 0.01"
    and "market_liquidity_depth (config s) \<noteq> 0"
proof -
  from assms obtain us' where
    la: "liquidate_all (eth_reserve s)
        (sort_by_debt (users s) (liquidatable_users (eth_reserve s) (users s))) (users s) 0 = Inr (us', vol)"
    and sl: "slip = (vol * price (eth_reserve s) / market_liquidity_depth (config s)) * 0.01"
    and d: "market_liquidity_depth (config s) \<noteq> 0"
    and us': "users s' = us'"
    by (rule cascade_round_SomeD)
  have "\<forall>i\<in>set (sort_by_debt (users s) (liquidatable_users (eth_reserve s) (users s))). i < length (users s)"
    by (simp add: set_sort_by_debt set_liquidatable_users)
  from liquidate_all_volume[OF la this] us'
  show "vol = sum_list (map eth_collateral (users s)) - sum_list (map eth_collateral (users s'))"
    by simp
  show "slip = (vol * price (eth_reserve s) / market_liquidity_depth (config s)) * 0.01" by (rule sl)
  show "market_liquidity_depth (config s) \<noteq> 0" by (rule d)
qed

section \<open>Positions along a run\<close>

lemma cascade_round_position:
  assumes rd: "cascade_round s n = Inr (Some (s', slip, vol))"
    and lbn: "0 \<le> lb (eth_reserve s)"
    and j: "j < length (users s)" and ok: "position_ok (users s ! j)"
  shows "position_ok (users s' ! j) \<and>
         usdc_debt (users s' ! j) \<le> usdc_debt (users s ! j) \<and>
         bad_debt (users s ! j) \<le> bad_debt (users s' ! j) \<and>
         (bad_debt (users s ! j) \<noteq> 0 \<longrightarrow> bad_debt (users s' ! j) = bad_debt (users s ! j)) \<and>
         (0 < price (eth_reserve s) \<longrightarrow>
            eth_collateral (users s' ! j) \<le> eth_collateral (users s ! j))"
proof (cases "hf_lt (calculate_hf (users s ! j) (eth_reserve s)) 1")
  case False
  from cascade_round_user(2)[OF rd j False] ok show ?thesis by simp
next
  case True
  let ?u = "users s ! j" and ?r = "eth_reserve s"
  let ?x = "(usdc_debt ?u * 0.5 * (1 + lb ?r)) / price ?r"
  from cascade_round_user(3)[OF rd j True] obtain sz where
    liq: "liquidate_user ?r ?u = Inr (users s' ! j, sz)" by blast
  have dnz: "usdc_debt ?u \<noteq> 0" using True by (rule hf_lt_finite)
  with ok have d: "0 < usdc_debt ?u" and bd: "bad_debt ?u = 0" and c: "0 \<le> eth_collateral ?u"
    by (auto simp: position_ok_def)
  have p: "price ?r \<noteq> 0" using liq by (rule liquidate_user_InrD)
  have b: "1 + lb ?r \<noteq> 0" using lbn by simp
  have x: "0 \<le> ?x" if "0 < price ?r" using d that lbn by simp
  show ?thesis
  proof (cases "eth_collateral ?u < ?x")
    case True
    from liquidate_user_wipe[OF p b True] liq
    have "users s' ! j = ?u\<lparr>bad_debt := max 0 (usdc_debt ?u - (eth_collateral ?u * price ?r) / (1 + lb ?r)),
                  eth_collateral := 0, usdc_debt := 0\<rparr>" by simp
    then show ?thesis using d bd c by (simp add: position_ok_def)
  next
    case False
    from liquidate_user_partial[OF p False] liq
    have u': "users s' ! j = ?u\<lparr>eth_collateral := eth_collateral ?u - ?x,
                  usdc_debt := usdc_debt ?u - usdc_debt ?u * 0.5\<rparr>" by simp
    have "position_ok (users s' ! j)"
      unfolding u' using d bd c False by (simp add: position_ok_def)
    moreover have "usdc_debt (users s' ! j) \<le> usdc_debt ?u" unfolding u' using d by simp
    moreover have "bad_debt (users s' ! j) = bad_debt ?u" unfolding u' by simp
    moreover have "eth_collateral (users s' ! j) \<le> eth_collateral ?u" if "0 < price ?r"
      unfolding u' using x[OF that] by simp
    ultimately show ?thesis by simp
  qed
qed

lemma later_rounds_position:
  "later_rounds k s n = Some t \<Longrightarrow>
   0 \<le> lb (eth_reserve s) \<Longrightarrow> j < length (users s) \<Longrightarrow> position_ok (users s ! j) \<Longrightarrow>
   position_ok (users t ! j) \<and>
   usdc_debt (users t ! j) \<le> usdc_debt (users s ! j) \<and>
   bad_debt (users s ! j) \<le> bad_debt (users t ! j) \<and>
   (bad_debt (users s ! j) \<noteq> 0 \<longrightarrow> bad_debt (users t ! j) = bad_debt (users s ! j)) \<and>
   ((\<forall>i<k. \<forall>x. later_rounds i s n = Some x \<longrightarrow> 0 < price (eth_reserve x)) \<longrightarrow>
      eth_collateral (users t ! j) \<le> eth_collateral (users s ! j)) \<and>
   lb (eth_reserve t) = lb (eth_reserve s) \<and> length (users t) = length (users s)"
proof (induction k arbitrary: s n)
  case 0
  then show ?case by simp
next
  case (Suc k)
  from Suc.prems(1) obtain s' slip vol where
    rd: "cascade_round s (n + 1) = Inr (Some (s', slip, vol))" and
    rest: "later_rounds k s' (n + 1) = Some t"
    by (rule later_rounds_Suc)
  note step = cascade_round_position[OF rd Suc.prems(2) Suc.prems(3) Suc.prems(4)]
  have lb': "lb (eth_reserve s') = lb (eth_reserve s)" using rd by (rule cascade_round_reserve)
  have len: "length (users s') = length (users s)"
    using cascade_round_user(1)[OF rd Suc.prems(3)] .
  have IH: "position_ok (users t ! j) \<and>
   usdc_debt (users t ! j) \<le> usdc_debt (users s' ! j) \<and>
   bad_debt (users s' ! j) \<le> bad_debt (users t ! j) \<and>
   (bad_debt (users s' ! j) \<noteq> 0 \<longrightarrow> bad_debt (users t ! j) = bad_debt (users s' ! j)) \<and>
   ((\<forall>i<k. \<forall>x. later_rounds i s' (n + 1) = Some x \<longrightarrow> 0 < price (eth_reserve x)) \<longrightarrow>
      eth_collateral (users t ! j) \<le> eth_collateral (users s' ! j)) \<and>
   lb (eth_reserve t) = lb (eth_reserve s') \<and> length (users t) = length (users s')"
    using Suc.IH[OF rest] lb' len Suc.prems(2,3) step by simp
  have coll: "eth_collateral (users t ! j) \<le> eth_collateral (users s ! j)"
    if all: "\<forall>i<Suc k. \<forall>x. later_rounds i s n = Some x \<longrightarrow> 0 < price (eth_reserve x)"
  proof -
    have pos: "0 < price (eth_reserve s)" using all by (auto dest: spec[of _ 0])
    have pos': "\<forall>i<k. \<forall>x. later_rounds i s' (n + 1) = Some x \<longrightarrow> 0 < price (eth_reserve x)"
    proof (intro allI impI)
      fix i x assume i: "i < k" and x: "later_rounds i s' (n + 1) = Some x"
      from x rd have "later_rounds (Suc i) s n = Some x" by simp
      with all i show "0 < price (eth_reserve x)" by (meson Suc_less_eq)
    qed
    from IH pos' have "eth_collateral (users t ! j) \<le> eth_collateral (users s' ! j)" by blast
    moreover from step pos have "eth_collateral (users s' ! j) \<le> eth_collateral (users s ! j)"
      by blast
    ultimately show ?thesis by simp
  qed
  have debt: "usdc_debt (users t ! j) \<le> usdc_debt (users s ! j)" using IH step by force
  have bd: "bad_debt (users s ! j) \<le> bad_debt (users t ! j)" using IH step by force
  have once: "bad_debt (users s ! j) \<noteq> 0 \<longrightarrow> bad_debt (users t ! j) = bad_debt (users s ! j)"
    using IH step by force
  from IH debt bd once coll lb' len show ?case by simp
qed

section \<open>The generated population\<close>

lemma generate_user_InrD:
  assumes "generate_user rng cfg r i g = Inr (u, g')"
  shows "\<exists>g1. u = User_init i
            (fst (if is_whale cfg i then rnd_uniform rng 1000 10000 g else rnd_exponential rng 10 g))
            (fst (if is_whale cfg i then rnd_uniform rng 1000 10000 g else rnd_exponential rng 10 g)
               * price r * lt r
             / fst (if is_whale cfg i then rnd_uniform rng 1.2 1.8 g1 else rnd_uniform rng 1.01 2.0 g1)) \<and>
          fst (if is_whale cfg i then rnd_uniform rng 1.2 1.8 g1 else rnd_uniform rng 1.01 2.0 g1) \<noteq> 0"
proof (cases "is_whale cfg i")
  case True
  obtain e g1 where a: "rnd_uniform rng 1000 10000 g = (e, g1)"
    by (cases "rnd_uniform rng 1000 10000 g")
  obtain tt g2 where b: "rnd_uniform rng 1.2 1.8 g1 = (tt, g2)"
    by (cases "rnd_uniform rng 1.2 1.8 g1")
  from assms True a b have "tt \<noteq> 0 \<and> u = User_init i e (e * price r * lt r / tt)"
    by (auto simp: generate_user_def split: if_splits)
  with True a b show ?thesis by (intro exI[of _ g1]) simp
next
  case False
  obtain e g1 where a: "rnd_exponential rng 10 g = (e, g1)"
    by (cases "rnd_exponential rng 10 g")
  obtain tt g2 where b: "rnd_uniform rng 1.01 2.0 g1 = (tt, g2)"
    by (cases "rnd_uniform rng 1.01 2.0 g1")
  from assms False a b have "tt \<noteq> 0 \<and> u = User_init i e (e * price r * lt r / tt)"
    by (auto simp: generate_user_def split: if_splits)
  with False a b show ?thesis by (intro exI[of _ g1]) simp
qed

lemma generate_user_ok:
  assumes "\<forall>a b g. a \<le> b \<longrightarrow> a \<le> fst (rnd_uniform rng a b g)"
  shows "\<exists>u g'. generate_user rng cfg r i g = Inr (u, g')"
proof -
  have t: "0 < fst (rnd_uniform rng 1.2 1.8 g1)" "0 < fst (rnd_uniform rng 1.01 2.0 g1)" for g1
  proof -
    have le: "(1.2::real) \<le> 1.8" "(1.01::real) \<le> 2.0" by simp_all
    from le(1) assms have "(1.2::real) \<le> fst (rnd_uniform rng 1.2 1.8 g1)" by blast
    then show "0 < fst (rnd_uniform rng 1.2 1.8 g1)" by simp
    from le(2) assms have "(1.01::real) \<le> fst (rnd_uniform rng 1.01 2.0 g1)" by blast
    then show "0 < fst (rnd_uniform rng 1.01 2.0 g1)" by simp
  qed
  show ?thesis
  proof (cases "is_whale cfg i")
    case True
    obtain e g1 where a: "rnd_uniform rng 1000 10000 g = (e, g1)" by (cases "rnd_uniform rng 1000 10000 g")
    obtain tt g2 where b: "rnd_uniform rng 1.2 1.8 g1 = (tt, g2)" by (cases "rnd_uniform rng 1.2 1.8 g1")
    have "tt \<noteq> 0" using t(1)[of g1] b by simp
    then show ?thesis using True a b by (simp add: generate_user_def)
  next
    case False
    obtain e g1 where a: "rnd_exponential rng 10 g = (e, g1)" by (cases "rnd_exponential rng 10 g")
    obtain tt g2 where b: "rnd_uniform rng 1.01 2.0 g1 = (tt, g2)" by (cases "rnd_uniform rng 1.01 2.0 g1")
    have "tt \<noteq> 0" using t(2)[of g1] b by simp
    then show ?thesis using False a b by (simp add: generate_user_def)
  qed
qed

lemma generate_loop_InrD:
  "generate_loop rng cfg r is us g = Inr (us', g') \<Longrightarrow>
   \<exists>new. us' = us @ new \<and> length new = length is \<and>
     (\<forall>k<length is. \<exists>gk gk'. generate_user rng cfg r (is ! k) gk = Inr (new ! k, gk'))"
proof (induction "is" arbitrary: us g)
  case Nil
  then show ?case by simp
next
  case (Cons i "is")
  from Cons.prems obtain u g1 where
    u: "generate_user rng cfg r i g = Inr (u, g1)" and
    rest: "generate_loop rng cfg r is (us @ [u]) g1 = Inr (us', g')"
    by (auto split: sum.splits)
  from Cons.IH[OF rest] obtain new where
    new: "us' = (us @ [u]) @ new" "length new = length is"
      "\<forall>k<length is. \<exists>gk gk'. generate_user rng cfg r (is ! k) gk = Inr (new ! k, gk')"
    by blast
  have "\<exists>gk gk'. generate_user rng cfg r ((i # is) ! k) gk = Inr ((u # new) ! k, gk')"
    if "k < length (i # is)" for k
  proof (cases k)
    case 0
    with u show ?thesis by auto
  next
    case (Suc k')
    with that new(3) show ?thesis by simp
  qed
  with new(1,2) show ?case by (intro exI[of _ "u # new"]) simp
qed

lemma generate_loop_ok:
  assumes "\<forall>i g. \<exists>u g'. generate_user rng cfg r i g = Inr (u, g')"
  shows "\<exists>us' g'. generate_loop rng cfg r is us g = Inr (us', g')"
proof (induction "is" arbitrary: us g)
  case Nil
  then show ?case by simp
next
  case (Cons i "is")
  from assms obtain u g1 where u: "generate_user rng cfg r i g = Inr (u, g1)" by blast
  from Cons.IH[of "us @ [u]" g1] u show ?case by simp
qed

lemma generate_users_InrD:
  assumes "generate_users rng s g = Inr (s', g')"
  shows "config s' = config s" and "eth_reserve s' = eth_reserve s" and "history s' = history s"
    and "\<exists>new. users s' = users s @ new \<and> length new = nat (num_users (config s)) \<and>
           (\<forall>k<nat (num_users (config s)). \<exists>gk gk'.
              generate_user rng (config s) (eth_reserve s) k gk = Inr (new ! k, gk'))"
proof -
  from assms obtain us where
    loop: "generate_loop rng (config s) (eth_reserve s) [0 ..< nat (num_users (config s))]
             (users s) (rnd_seed rng 42) = Inr (us, g')"
    and s': "s' = s\<lparr>users := us\<rparr>"
    by (auto simp: generate_users_def split: sum.splits)
  show "config s' = config s" "eth_reserve s' = eth_reserve s" "history s' = history s"
    unfolding s' by simp_all
  from generate_loop_InrD[OF loop] show "\<exists>new. users s' = users s @ new \<and> length new = nat (num_users (config s)) \<and>
           (\<forall>k<nat (num_users (config s)). \<exists>gk gk'.
              generate_user rng (config s) (eth_reserve s) k gk = Inr (new ! k, gk'))"
    unfolding s' by auto
qed

lemma generate_users_ok:
  assumes "\<forall>a b g. a \<le> b \<longrightarrow> a \<le> fst (rnd_uniform rng a b g)"
  shows "\<exists>s' g'. generate_users rng s g = Inr (s', g')"
proof -
  have "\<forall>i g. \<exists>u g'. generate_user rng (config s) (eth_reserve s) i g = Inr (u, g')"
    using generate_user_ok[OF assms] by blast
  from generate_loop_ok[OF this, of "[0 ..< nat (num_users (config s))]" "users s" "rnd_seed rng 42"]
  show ?thesis by (auto simp: generate_users_def)
qed

lemma generated_population:
  assumes "generate_users rng (Sim_init cfg) g = Inr (s, g')"
  shows "config s = cfg" and "eth_reserve s = eth_reserve_init (start_price cfg)"
    and "history s = []" and "length (users s) = nat (num_users cfg)"
    and "i < nat (num_users cfg) \<Longrightarrow>
           \<exists>gk gk'. generate_user rng cfg (eth_reserve_init (start_price cfg)) i gk = Inr (users s ! i, gk')"
proof -
  note D = generate_users_InrD[OF assms]
  show "config s = cfg" "eth_reserve s = eth_reserve_init (start_price cfg)" "history s = []"
    using D(1,2,3) by (simp_all add: Sim_init_def)
  from D(4) obtain new where new: "users s = new" "length new = nat (num_users cfg)"
    "\<forall>k<nat (num_users cfg). \<exists>gk gk'.
        generate_user rng cfg (eth_reserve_init (start_price cfg)) k gk = Inr (new ! k, gk')"
    by (auto simp: Sim_init_def)
  show "length (users s) = nat (num_users cfg)" using new by simp
  show "\<exists>gk gk'. generate_user rng cfg (eth_reserve_init (start_price cfg)) i gk = Inr (users s ! i, gk')"
    if "i < nat (num_users cfg)"
    using new that by simp
qed

lemma is_whale_ceiling:
  "is_whale cfg i \<longleftrightarrow> int i < \<lceil>float_product (num_users cfg) (whale_concentration cfg)\<rceil>"
  by (simp add: is_whale_def less_ceiling_iff)

lemma generated_hf:
  assumes "e * p \<noteq> 0" and "tt \<noteq> 0"
  shows "calculate_hf (User_init i e (e * p * lt (eth_reserve_init p) / tt)) (eth_reserve_init p) = Fin tt"
  using assms by (simp add: calculate_hf_def User_init_def eth_reserve_init_def Let_def)

lemma midpoint_rng_uniform:
  "\<forall>a b g. a \<le> b \<longrightarrow> a \<le> fst (rnd_uniform midpoint_rng a b g) \<and> fst (rnd_uniform midpoint_rng a b g) \<le> b"
  by (simp add: midpoint_rng_def)

text \<open>
  At 100 users and a concentration of 0.07 the product is 7.000000000000000888..., above
  7, so index 7 is a whale: eight whales, as in Python.
\<close>

lemma float_product_hundred:
  "float_product (num_users hundred_config) (whale_concentration hundred_config)
     = 7881299347898369 / 1125899906842624 \<and>
   is_whale hundred_config 7 \<and> \<not> is_whale hundred_config 8"
  by code_simp

lemma sum_list_bad_debt_zero:
  "\<forall>u\<in>set us. bad_debt u = 0 \<Longrightarrow> sum_list (map bad_debt us) = 0"
  by (induction us) auto

lemma fresh_bad_debt:
  assumes "generate_users rng (Sim_init cfg) g = Inr (s, g')"
  shows "sum_list (map bad_debt (users s)) = 0"
proof -
  note P = generated_population[OF assms]
  have "bad_debt u = 0" if "u \<in> set (users s)" for u
  proof -
    from that obtain i where i: "i < length (users s)" and u: "u = users s ! i"
      by (auto simp: in_set_conv_nth)
    from i P(4) have "i < nat (num_users cfg)" by simp
    from P(5)[OF this] obtain gk gk' where
      "generate_user rng cfg (eth_reserve_init (start_price cfg)) i gk = Inr (users s ! i, gk')"
      by blast
    from generate_user_InrD[OF this] obtain e d where "users s ! i = User_init i e d"
      by blast
    with u show ?thesis by (simp add: User_init_def)
  qed
  then have "\<forall>u\<in>set (users s). bad_debt u = 0" by blast
  then show ?thesis by (rule sum_list_bad_debt_zero)
qed

lemma healthy_not_liquidatable:
  "hf_ge h 1.01 \<Longrightarrow> \<not> hf_lt h 1.0"
  by (cases h) simp_all

section \<open>The batch script against \<^verbatim>\<open>app.py\<close>, function by function\<close>

lemma calculate_hf_b_eq: "calculate_hf_b u r = calculate_hf u r"
  by (simp add: calculate_hf_b_def calculate_hf_def Let_def)

lemma liquidate_user_b_eq: "liquidate_user_b r u = liquidate_user r u"
  by (simp add: liquidate_user_b_def liquidate_user_def Let_def)

lemma liquidate_all_b_eq: "liquidate_all_b r is us vol = liquidate_all r is us vol"
  by (induction "is" arbitrary: us vol) (simp_all add: liquidate_user_b_eq split: sum.splits)

lemma liquidatable_users_b_eq: "liquidatable_users_b r us = liquidatable_users r us"
  by (simp add: liquidatable_users_b_def liquidatable_users_def calculate_hf_b_eq)

lemma sort_by_debt_b_eq: "sort_by_debt_b us is = sort_by_debt us is"
  by (simp add: sort_by_debt_b_def sort_by_debt_def)

lemma embed_b_sel:
  "eth_reserve (embed_b s) = eth_reserve_b s"
  "users (embed_b s) = users_b s"
  "history (embed_b s) = history_b s"
  "market_liquidity_depth (config (embed_b s)) = market_liquidity_depth_b (config_b s)"
  "eth_price_drop (config (embed_b s)) = eth_price_drop_b (config_b s)"
  "num_users (config (embed_b s)) = num_users_b (config_b s)"
  "whale_concentration (config (embed_b s)) = whale_concentration_b (config_b s)"
  by (simp_all add: embed_b_def)

lemma snapshot_state_b_eq:
  "embed_b (snapshot_state_b s stg) = snapshot_state (embed_b s) stg"
  by (simp add: snapshot_state_b_def snapshot_state_def embed_b_def calculate_hf_b_eq)

lemma run_shock_phase_eq: "embed_b (run_shock_phase s) = shock (embed_b s)"
  by (simp add: run_shock_phase_def shock_def Let_def snapshot_state_b_def snapshot_state_def
        embed_b_def calculate_hf_b_eq)

lemma market_impact_b_eq:
  "map_sum id (\<lambda>(s', sl). (embed_b s', sl)) (market_impact_b s us v) = market_impact (embed_b s) us v"
  by (simp add: market_impact_b_def market_impact_def Let_def embed_b_def)

lemma cascade_round_b_eq:
  "map_sum id (map_option (\<lambda>(s', sl, v). (embed_b s', sl, v))) (cascade_round_b s n)
     = cascade_round (embed_b s) n"
proof -
  let ?sel = "liquidatable_users (eth_reserve_b s) (users_b s)"
  show ?thesis
  proof (cases "?sel = []")
    case True
    then show ?thesis
      by (simp add: cascade_round_b_def cascade_round_def embed_b_sel liquidatable_users_b_eq)
  next
    case False
    show ?thesis
    proof (cases "liquidate_all (eth_reserve_b s) (sort_by_debt (users_b s) ?sel) (users_b s) 0")
      case (Inl e)
      with False show ?thesis
        by (simp add: cascade_round_b_def cascade_round_def embed_b_sel liquidatable_users_b_eq
              sort_by_debt_b_eq liquidate_all_b_eq)
    next
      case (Inr res)
      obtain us' vol where res: "res = (us', vol)" by (cases res)
      show ?thesis
      proof (cases "market_impact_b s us' vol")
        case (Inl e)
        with market_impact_b_eq[of s us' vol] have "market_impact (embed_b s) us' vol = Inl e"
          by simp
        with False Inr res Inl show ?thesis
          by (simp add: cascade_round_b_def cascade_round_def embed_b_sel liquidatable_users_b_eq
                sort_by_debt_b_eq liquidate_all_b_eq)
      next
        case (Inr mi)
        obtain s1 sl where mi: "mi = (s1, sl)" by (cases mi)
        with Inr market_impact_b_eq[of s us' vol]
        have a: "market_impact (embed_b s) us' vol = Inr (embed_b s1, sl)" by simp
        from False \<open>liquidate_all (eth_reserve_b s) (sort_by_debt (users_b s) ?sel) (users_b s) 0 = Inr res\<close>
          res Inr mi a show ?thesis
          by (simp add: cascade_round_b_def cascade_round_def embed_b_sel liquidatable_users_b_eq
                sort_by_debt_b_eq liquidate_all_b_eq snapshot_state_b_eq)
      qed
    qed
  qed
qed

lemma run_liquidation_cascade_eq:
  "map_option (map_sum id embed_b) (run_liquidation_cascade fuel s n tot)
     = cascade fuel (embed_b s) n tot"
proof (induction fuel arbitrary: s n tot)
  case 0
  show ?case by simp
next
  case (Suc fuel)
  show ?case
  proof (cases "cascade_round_b s (n + 1)")
    case (Inl e)
    with cascade_round_b_eq[of s "n + 1"] have "cascade_round (embed_b s) (n + 1) = Inl e" by simp
    with Inl show ?thesis by simp
  next
    case (Inr res)
    show ?thesis
    proof (cases res)
      case None
      with Inr cascade_round_b_eq[of s "n + 1"] have "cascade_round (embed_b s) (n + 1) = Inr None"
        by simp
      with Inr None show ?thesis by simp
    next
      case (Some trip)
      obtain s' sl v where trip: "trip = (s', sl, v)" by (cases trip)
      with Inr Some cascade_round_b_eq[of s "n + 1"]
      have "cascade_round (embed_b s) (n + 1) = Inr (Some (embed_b s', sl, v))" by simp
      with Inr Some trip Suc.IH[of s' "n + 1" "tot + v"] show ?thesis by simp
    qed
  qed
qed

lemma is_whale_b_eq:
  "num_users cfg = num_users_b cb \<Longrightarrow> whale_concentration cfg = whale_concentration_b cb \<Longrightarrow>
   is_whale_b cb i = is_whale cfg i"
  by (simp add: is_whale_b_def is_whale_def)

lemma generate_user_b_eq:
  "num_users cfg = num_users_b cb \<Longrightarrow> whale_concentration cfg = whale_concentration_b cb \<Longrightarrow>
   generate_user_b rng cb r i g = generate_user rng cfg r i g"
  by (simp add: generate_user_b_def generate_user_def is_whale_b_eq[of cfg cb])

lemma generate_loop_b_eq:
  "num_users cfg = num_users_b cb \<Longrightarrow> whale_concentration cfg = whale_concentration_b cb \<Longrightarrow>
   generate_loop_b rng cb r is us g = generate_loop rng cfg r is us g"
  by (induction "is" arbitrary: us g) (simp_all add: generate_user_b_eq[of cfg cb] split: sum.splits)

lemma generate_users_b_eq:
  "map_sum id (\<lambda>(s', g'). (embed_b s', g')) (generate_users_b rng s g)
     = generate_users rng (embed_b s) g"
proof -
  have loop: "generate_loop_b rng (config_b s) r is us g0 = generate_loop rng (config (embed_b s)) r is us g0"
    for r "is" us g0
    by (rule generate_loop_b_eq) (simp_all add: embed_b_sel)
  show ?thesis
    unfolding generate_users_b_def generate_users_def loop embed_b_sel
    by (cases "generate_loop rng (config (embed_b s)) (eth_reserve_b s)
                 [0..<nat (num_users_b (config_b s))] (users_b s) (rnd_seed rng 42)")
       (auto simp: embed_b_def)
qed

lemma Sim_init_batch: "Sim_init batch_equivalent_config = embed_b Sim_b_init"
  by (simp add: Sim_init_def batch_equivalent_config_def embed_b_def Sim_b_init_def
        SimulationConfig_b_init_def)

section \<open>The price after market impact\<close>

text \<open>
  Claim C1, as amended. The code applies the market impact without a floor
  (\<^verbatim>\<open>price * (1 - slippage_pct)\<close>, after the comment "or let it crash"). In a round that
  starts at a positive price, the volume is the collateral taken from the positions in
  that round, the slippage is \<open>(volume * price / depth) * 0.01\<close>, the new price is
  \<open>price * (1 - slippage)\<close>, and the new price is strictly positive exactly when the
  slippage is below 1; for a positive depth that is exactly when the value sold is below
  100 times the depth.
\<close>

theorem price_after_market_impact:
  assumes rd: "cascade_round s n = Inr (Some (s', slip, vol))"
    and pos: "0 < price (eth_reserve s)"
  shows "vol = sum_list (map eth_collateral (users s)) - sum_list (map eth_collateral (users s')) \<and>
         slip = (vol * price (eth_reserve s) / market_liquidity_depth (config s)) * 0.01 \<and>
         price (eth_reserve s') = price (eth_reserve s) * (1 - slip) \<and>
         (0 < price (eth_reserve s') \<longleftrightarrow> slip < 1) \<and>
         (0 < market_liquidity_depth (config s) \<longrightarrow>
            (0 < price (eth_reserve s') \<longleftrightarrow>
               vol * price (eth_reserve s) < 100 * market_liquidity_depth (config s)))"
proof -
  note V = cascade_round_volume[OF rd]
  have eq: "price (eth_reserve s') = price (eth_reserve s) * (1 - slip)"
    using rd by (rule cascade_round_reserve)
  have iff: "0 < price (eth_reserve s') \<longleftrightarrow> slip < 1"
    unfolding eq using pos by (simp add: zero_less_mult_iff)
  have depth: "slip < 1 \<longleftrightarrow> vol * price (eth_reserve s) < 100 * market_liquidity_depth (config s)"
    if "0 < market_liquidity_depth (config s)"
    unfolding V(2) using that by (simp add: field_simps)
  from V(1,2) eq iff depth show ?thesis by blast
qed

text \<open>
  The first round of the deep-market run: 3176.25 units are seized at a price of 1000,
  the slippage is 0.01588125, and the price after is positive.
\<close>

theorem price_after_market_impact_witness:
  "cascade_round deep_shocked 1 = Inr (Some (deep_round_1, 2541 / 160000, 12705 / 4)) \<and>
   12705 / 4 = sum_list (map eth_collateral (users deep_shocked))
                 - sum_list (map eth_collateral (users deep_round_1)) \<and>
   price (eth_reserve deep_round_1) = price (eth_reserve deep_shocked) * (1 - 2541 / 160000) \<and>
   0 < price (eth_reserve deep_round_1) \<and>
   12705 / 4 * price (eth_reserve deep_shocked) < 100 * market_liquidity_depth (config deep_shocked)"
proof -
  have a: "cascade_round deep_shocked 1 = Inr (Some (deep_round_1, 2541 / 160000, 12705 / 4))"
    by code_simp
  have b: "0 < price (eth_reserve deep_shocked)" by code_simp
  have c: "(2541 / 160000 :: real) < 1" by simp
  have d: "0 < market_liquidity_depth (config deep_shocked)" by code_simp
  from price_after_market_impact[OF a b] a c d show ?thesis by blast
qed

text \<open>
  Claim C1 as stated fails for a liquidity depth of one dollar: every field of the
  configuration is in its range, and the first round leaves a price of -31761500.
\<close>

theorem price_negative_counterexample:
  "run midpoint_rng 3 thin_market_config 0 =
     Some (Inr [\<lparr>stage = ''Post-Shock'', eth_price = 1000, total_bad_debt = 0,
                 liquidatable_cnt = 1, total_collateral_usd = 5500000\<rparr>,
                \<lparr>stage = ''Round 1'', eth_price = - 31761500, total_bad_debt = 0,
                 liquidatable_cnt = 1, total_collateral_usd = - 73805785625\<rparr>,
                \<lparr>stage = ''Round 2'', eth_price = 504380560375, total_bad_debt = 0,
                 liquidatable_cnt = 0, total_collateral_usd = 2344159093986875 / 2\<rparr>])"
  by code_simp

text \<open>
  At a depth of 31762.5 the slippage of the first round is exactly 1 and the price is 0;
  the second round then divides by it.
\<close>

lemma zero_price_raises:
  "run midpoint_rng 3 exact_depth_config 0 = Some (Inl ZeroDivisionError)"
  by code_simp

section \<open>Partial liquidation and the health factor\<close>

text \<open>
  Claim C2, as amended. A position selected in a round (health factor below 1.0) whose
  seizure \<open>(0.5 * debt * (1 + LB)) / price\<close> does not exceed its collateral is liquidated
  partially, and its health factor recomputed at the same price is
  \<open>2 * h - (1 + LB) * LT\<close>, where \<open>h\<close> is the health factor before. It is strictly
  greater than \<open>h\<close> exactly when \<open>h\<close> exceeds \<open>(1 + LB) * LT\<close>; at or below that value
  the partial liquidation does not improve it.
\<close>

theorem partial_liquidation_hf:
  assumes sel: "hf_lt (calculate_hf u r) 1.0"
    and part: "(0.5 * usdc_debt u * (1 + lb r)) / price r \<le> eth_collateral u"
    and liq: "liquidate_user r u = Inr (u', seized)"
    and pre: "calculate_hf u r = Fin h"
  shows "calculate_hf u' r = Fin (2 * h - (1 + lb r) * lt r) \<and>
         (hf_less (calculate_hf u r) (calculate_hf u' r) \<longleftrightarrow> (1 + lb r) * lt r < h)"
proof -
  have p: "price r \<noteq> 0" using liq by (rule liquidate_user_InrD)
  have d: "usdc_debt u \<noteq> 0" using sel by (rule hf_lt_finite)
  have h: "h = eth_collateral u * price r * lt r / usdc_debt u"
    using hf_lt_finite(2)[OF sel] pre by simp
  have part': "\<not> eth_collateral u < (usdc_debt u * 0.5 * (1 + lb r)) / price r"
    using part by (simp add: mult.commute)
  have u': "u' = u\<lparr>eth_collateral := eth_collateral u - (usdc_debt u * 0.5 * (1 + lb r)) / price r,
                    usdc_debt := usdc_debt u - usdc_debt u * 0.5\<rparr>"
    using liquidate_user_partial[OF p part'] liq by simp
  have nz: "usdc_debt u - usdc_debt u * 0.5 \<noteq> 0" using d by simp
  have post: "calculate_hf u' r = Fin (2 * h - (1 + lb r) * lt r)"
    unfolding u' calculate_hf_def Let_def h using nz partial_algebra[OF p d] by simp
  have "hf_less (Fin h) (Fin (2 * h - (1 + lb r) * lt r)) \<longleftrightarrow> (1 + lb r) * lt r < h"
    by auto
  with post pre show ?thesis by simp
qed

text \<open>
  The instance at 8 units of collateral, a debt of 8250 and a price of 1000: the hypotheses
  hold there and the health factor goes from 0.8 to \<open>2 * 0.8 - 1.05 * 0.825\<close>.
\<close>

theorem partial_liquidation_hf_witness:
  "calculate_hf (User_init 0 (587 / 160) 4125) (eth_reserve_init 1000) = Fin (2 * 0.8 - (1 + 0.05) * 0.825)"
proof -
  let ?u = "User_init 0 8 8250" and ?r = "eth_reserve_init 1000"
  let ?u' = "(User_init 0 (587 / 160) 4125)\<lparr>initial_eth := 8, initial_debt := 8250\<rparr>"
  have a: "hf_lt (calculate_hf ?u ?r) 1.0" by code_simp
  have b: "(0.5 * usdc_debt ?u * (1 + lb ?r)) / price ?r \<le> eth_collateral ?u" by code_simp
  have c: "liquidate_user ?r ?u = Inr (?u', 693 / 160)" by code_simp
  have d: "calculate_hf ?u ?r = Fin 0.8" by code_simp
  have e: "calculate_hf ?u' ?r = calculate_hf (User_init 0 (587 / 160) 4125) ?r" by code_simp
  have f: "lb ?r = 0.05" "lt ?r = 0.825" by code_simp+
  from partial_liquidation_hf[OF a b c d] show ?thesis unfolding e f by simp
qed

text \<open>
  Claim C2 as stated fails at that position: it is selected, liquidated partially, and
  its health factor falls from 0.8 to 0.73375.
\<close>

theorem partial_liquidation_hf_counterexample:
  "hf_lt (calculate_hf (User_init 0 8 8250) (eth_reserve_init 1000)) 1.0 \<and>
   (0.5 * usdc_debt (User_init 0 8 8250) * (1 + lb (eth_reserve_init 1000))) / price (eth_reserve_init 1000)
      \<le> eth_collateral (User_init 0 8 8250) \<and>
   liquidate_user (eth_reserve_init 1000) (User_init 0 8 8250)
     = Inr ((User_init 0 8 8250)\<lparr>eth_collateral := 587 / 160, usdc_debt := 4125\<rparr>, 693 / 160) \<and>
   calculate_hf (User_init 0 8 8250) (eth_reserve_init 1000) = Fin 0.8 \<and>
   calculate_hf ((User_init 0 8 8250)\<lparr>eth_collateral := 587 / 160, usdc_debt := 4125\<rparr>)
      (eth_reserve_init 1000) = Fin 0.73375 \<and>
   \<not> hf_less (calculate_hf (User_init 0 8 8250) (eth_reserve_init 1000))
        (calculate_hf ((User_init 0 8 8250)\<lparr>eth_collateral := 587 / 160, usdc_debt := 4125\<rparr>)
          (eth_reserve_init 1000))"
  by code_simp

section \<open>Health factors at generation\<close>

text \<open>
  Claim C3. For a start price above zero and a random source whose uniform draws lie in
  their interval and whose exponential draws are positive, generation succeeds, and the
  health factor of every generated position, computed at the pre-shock price from the
  back-solved debt, is the target drawn for it; it is at least 1.01, so the position is
  not liquidatable.
\<close>

theorem generated_hf_equals_target:
  assumes uni: "\<forall>a b g. a \<le> b \<longrightarrow> a \<le> fst (rnd_uniform rng a b g) \<and> fst (rnd_uniform rng a b g) \<le> b"
    and expo: "\<forall>g. 0 < fst (rnd_exponential rng 10 g)"
    and price: "0 < start_price cfg"
  shows "\<exists>s g'. generate_users rng (Sim_init cfg) g = Inr (s, g') \<and>
           length (users s) = nat (num_users cfg) \<and>
           (\<forall>i<length (users s). \<exists>g1.
              calculate_hf (users s ! i) (eth_reserve s) =
                Fin (fst (if is_whale cfg i then rnd_uniform rng 1.2 1.8 g1
                          else rnd_uniform rng 1.01 2.0 g1)) \<and>
              hf_ge (calculate_hf (users s ! i) (eth_reserve s)) 1.01 \<and>
              \<not> hf_lt (calculate_hf (users s ! i) (eth_reserve s)) 1.0)"
proof -
  have uni': "\<forall>a b g. a \<le> b \<longrightarrow> a \<le> fst (rnd_uniform rng a b g)" using uni by blast
  from generate_users_ok[OF uni', of "Sim_init cfg" g] obtain s g' where
    gen: "generate_users rng (Sim_init cfg) g = Inr (s, g')" by blast
  note P = generated_population[OF gen]
  let ?r = "eth_reserve_init (start_price cfg)"
  have each: "\<exists>g1. calculate_hf (users s ! i) (eth_reserve s) =
                Fin (fst (if is_whale cfg i then rnd_uniform rng 1.2 1.8 g1
                          else rnd_uniform rng 1.01 2.0 g1)) \<and>
              hf_ge (calculate_hf (users s ! i) (eth_reserve s)) 1.01 \<and>
              \<not> hf_lt (calculate_hf (users s ! i) (eth_reserve s)) 1.0"
    if i: "i < length (users s)" for i
  proof -
    from i P(4) have "i < nat (num_users cfg)" by simp
    from P(5)[OF this] obtain gk gk' where
      "generate_user rng cfg ?r i gk = Inr (users s ! i, gk')" by blast
    from generate_user_InrD[OF this] obtain g1 where
      u: "users s ! i = User_init i
            (fst (if is_whale cfg i then rnd_uniform rng 1000 10000 gk else rnd_exponential rng 10 gk))
            (fst (if is_whale cfg i then rnd_uniform rng 1000 10000 gk else rnd_exponential rng 10 gk)
               * price ?r * lt ?r
             / fst (if is_whale cfg i then rnd_uniform rng 1.2 1.8 g1 else rnd_uniform rng 1.01 2.0 g1))"
      by blast
    let ?e = "fst (if is_whale cfg i then rnd_uniform rng 1000 10000 gk else rnd_exponential rng 10 gk)"
    let ?t = "fst (if is_whale cfg i then rnd_uniform rng 1.2 1.8 g1 else rnd_uniform rng 1.01 2.0 g1)"
    have le: "(1000::real) \<le> 10000" "(1.2::real) \<le> 1.8" "(1.01::real) \<le> 2.0" by simp_all
    have "(1000::real) \<le> fst (rnd_uniform rng 1000 10000 gk)" using le(1) uni by blast
    then have e: "0 < ?e" using expo by (cases "is_whale cfg i") simp_all
    have "(1.2::real) \<le> fst (rnd_uniform rng 1.2 1.8 g1)" using le(2) uni by blast
    moreover have "(1.01::real) \<le> fst (rnd_uniform rng 1.01 2.0 g1)" using le(3) uni by blast
    ultimately have t: "1.01 \<le> ?t" by (cases "is_whale cfg i") simp_all
    then have t0: "?t \<noteq> 0" by simp
    have ep: "?e * start_price cfg \<noteq> 0" using e price by simp
    have pr: "price ?r = start_price cfg" by (simp add: eth_reserve_init_def)
    have hf: "calculate_hf (users s ! i) (eth_reserve s) = Fin ?t"
      unfolding P(2) u pr by (rule generated_hf[OF ep t0])
    have "hf_ge (Fin ?t) 1.01" using t by simp
    moreover have "\<not> hf_lt (Fin ?t) 1.0" using t by simp
    ultimately show ?thesis using hf by (intro exI[of _ g1]) simp
  qed
  from gen P(4) each show ?thesis by blast
qed


text \<open>
  With the midpoint source and two users: the second position is a whale with 5500 units,
  a debt of 6050000 and a health factor of 1.5, the midpoint of [1.2, 1.8].
\<close>

theorem generated_hf_equals_target_witness:
  "generate_users midpoint_rng (Sim_init split_config) 0 =
     Inr ((Sim_init split_config)\<lparr>users := [User_init 0 5500 6050000, User_init 1 5500 6050000]\<rparr>, 46) \<and>
   calculate_hf (User_init 1 5500 6050000) (eth_reserve_init 2000) = Fin 1.5 \<and>
   hf_ge (calculate_hf (User_init 1 5500 6050000) (eth_reserve_init 2000)) 1.01 \<and>
   \<not> hf_lt (calculate_hf (User_init 1 5500 6050000) (eth_reserve_init 2000)) 1.0"
proof -
  let ?S = "(Sim_init split_config)\<lparr>users := [User_init 0 5500 6050000, User_init 1 5500 6050000]\<rparr>"
  have gen: "generate_users midpoint_rng (Sim_init split_config) 0 = Inr (?S, 46)" by code_simp
  have expo: "\<forall>g. 0 < fst (rnd_exponential midpoint_rng 10 g)" by (simp add: midpoint_rng_def)
  have price: "0 < start_price split_config" by code_simp
  from generated_hf_equals_target[OF midpoint_rng_uniform expo price, of 0] gen
  have all: "\<forall>i<length (users ?S). \<exists>g1.
              calculate_hf (users ?S ! i) (eth_reserve ?S) =
                Fin (fst (if is_whale split_config i then rnd_uniform midpoint_rng 1.2 1.8 g1
                          else rnd_uniform midpoint_rng 1.01 2.0 g1)) \<and>
              hf_ge (calculate_hf (users ?S ! i) (eth_reserve ?S)) 1.01 \<and>
              \<not> hf_lt (calculate_hf (users ?S ! i) (eth_reserve ?S)) 1.0"
    by auto
  have one: "1 < length (users ?S)" by simp
  have u: "users ?S ! 1 = User_init 1 5500 6050000" by simp
  have r: "eth_reserve ?S = eth_reserve_init 2000" by code_simp
  have w: "is_whale split_config 1" by code_simp
  have m: "fst (rnd_uniform midpoint_rng 1.2 1.8 g1) = 1.5" for g1 :: nat
    by (simp add: midpoint_rng_def)
  from all one have "\<exists>g1.
              calculate_hf (users ?S ! 1) (eth_reserve ?S) =
                Fin (fst (if is_whale split_config 1 then rnd_uniform midpoint_rng 1.2 1.8 g1
                          else rnd_uniform midpoint_rng 1.01 2.0 g1)) \<and>
              hf_ge (calculate_hf (users ?S ! 1) (eth_reserve ?S)) 1.01 \<and>
              \<not> hf_lt (calculate_hf (users ?S ! 1) (eth_reserve ?S)) 1.0"
    by blast
  then have "calculate_hf (User_init 1 5500 6050000) (eth_reserve_init 2000) = Fin 1.5 \<and>
     hf_ge (calculate_hf (User_init 1 5500 6050000) (eth_reserve_init 2000)) 1.01 \<and>
     \<not> hf_lt (calculate_hf (User_init 1 5500 6050000) (eth_reserve_init 2000)) 1.0"
    unfolding u r using w m by auto
  with gen show ?thesis by blast
qed

section \<open>Wipe-out\<close>

text \<open>
  Claim C4. When the seizure \<open>(0.5 * debt * (1 + LB)) / price\<close> exceeds the collateral of a
  liquidated position, the liquidation seizes all of the collateral, sets the bad debt to
  \<open>max 0 (debt - (collateral * price) / (1 + LB))\<close> at that round's price and sets
  collateral and debt to 0. The health factor of the position is then infinite at every
  price, and in every later round the position is unchanged and outside the selection.
\<close>

theorem wipe_out_terminal:
  assumes liq: "liquidate_user r u = Inr (u', seized)"
    and wipe: "eth_collateral u < (0.5 * usdc_debt u * (1 + lb r)) / price r"
    and j: "j < length (users s)" and at: "users s ! j = u'"
    and later: "later_rounds k s n = Some t"
  shows "bad_debt u' = max 0 (usdc_debt u - (eth_collateral u * price r) / (1 + lb r)) \<and>
         eth_collateral u' = 0 \<and> usdc_debt u' = 0 \<and> seized = eth_collateral u \<and>
         calculate_hf u' r' = Inf \<and>
         users t ! j = u' \<and> j \<notin> set (liquidatable_users (eth_reserve t) (users t))"
proof -
  have wipe': "eth_collateral u < (usdc_debt u * 0.5 * (1 + lb r)) / price r"
    using wipe by (simp add: mult.commute)
  have p: "price r \<noteq> 0" using liq by (rule liquidate_user_InrD)
  have b: "1 + lb r \<noteq> 0" using liq wipe' by (rule liquidate_user_wipe_InrD)
  have u': "u' = u\<lparr>bad_debt := max 0 (usdc_debt u - (eth_collateral u * price r) / (1 + lb r)),
                    eth_collateral := 0, usdc_debt := 0\<rparr>"
    and sz: "seized = eth_collateral u"
    using liquidate_user_wipe[OF p b wipe'] liq by simp_all
  have d0: "usdc_debt u' = 0" unfolding u' by simp
  have stay: "users t ! j = u'"
    using later_rounds_terminal[OF later j] at d0 by simp
  have "\<not> hf_lt (calculate_hf (users t ! j) (eth_reserve t)) 1"
    using stay d0 by (simp add: terminal_never_liquidatable)
  then have notsel: "j \<notin> set (liquidatable_users (eth_reserve t) (users t))"
    by (simp add: set_liquidatable_users)
  have "calculate_hf u' r' = Inf" using d0 by (simp add: calculate_hf_def)
  with stay notsel sz show ?thesis unfolding u' by simp
qed

text \<open>
  One unit of collateral against a debt of 4000 at a price of 1000 is wiped out with a bad
  debt of 64000/21; one round later the selection holds the other position only.
\<close>

theorem wipe_out_terminal_witness:
  "liquidate_user (eth_reserve_init 1000) (User_init 0 1 4000) = Inr (wiped_user, 1) \<and>
   later_rounds 1 wiped_state 0 = Some wiped_state_next \<and>
   bad_debt wiped_user = 64000 / 21 \<and>
   calculate_hf wiped_user (eth_reserve wiped_state_next) = Inf \<and>
   users wiped_state_next ! 0 = wiped_user \<and>
   liquidatable_users (eth_reserve wiped_state_next) (users wiped_state_next) = [1]"
proof -
  have a: "liquidate_user (eth_reserve_init 1000) (User_init 0 1 4000) = Inr (wiped_user, 1)"
    by code_simp
  have b: "eth_collateral (User_init 0 1 4000)
             < (0.5 * usdc_debt (User_init 0 1 4000) * (1 + lb (eth_reserve_init 1000)))
                 / price (eth_reserve_init 1000)"
    by code_simp
  have c: "0 < length (users wiped_state)" by code_simp
  have d: "users wiped_state ! 0 = wiped_user" by code_simp
  have e: "later_rounds 1 wiped_state 0 = Some wiped_state_next" by code_simp
  have f: "liquidatable_users (eth_reserve wiped_state_next) (users wiped_state_next) = [1]"
    by code_simp
  have g: "max 0 (usdc_debt (User_init 0 1 4000)
                   - eth_collateral (User_init 0 1 4000) * price (eth_reserve_init 1000)
                       / (1 + lb (eth_reserve_init 1000))) = 64000 / 21"
    by code_simp
  from wipe_out_terminal[OF a b c d e, of "eth_reserve wiped_state_next"] a e f
  show ?thesis unfolding g by simp
qed

section \<open>No validation of the configuration\<close>

text \<open>
  Claim C5, as amended. \<^verbatim>\<open>SimulationConfig\<close> stores its arguments unchecked and nothing
  in \<^verbatim>\<open>run\<close> inspects them: for every configuration, in range or not, generation is
  carried out with the given values (one position per index of \<^verbatim>\<open>range(num_users)\<close>, at
  the given start price), the shock is applied to that price, and the run continues
  into the cascade.
\<close>

theorem no_configuration_rejected:
  assumes uni: "\<forall>a b g. a \<le> b \<longrightarrow> a \<le> fst (rnd_uniform rng a b g)"
  shows "\<exists>s g'. generate_users rng (Sim_init cfg) g = Inr (s, g') \<and>
           config s = cfg \<and> price (eth_reserve s) = start_price cfg \<and>
           length (users s) = nat (num_users cfg) \<and>
           price (eth_reserve (shock s)) = start_price cfg * (1 - eth_price_drop cfg) \<and>
           run rng fuel cfg g = map_option (map_sum id history) (cascade fuel (shock s) 0 0)"
proof -
  from generate_users_ok[OF uni, of "Sim_init cfg" g] obtain s g' where
    gen: "generate_users rng (Sim_init cfg) g = Inr (s, g')" by blast
  note P = generated_population[OF gen]
  have pr: "price (eth_reserve s) = start_price cfg"
    using P(2) by (simp add: eth_reserve_init_def)
  have sh: "price (eth_reserve (shock s)) = start_price cfg * (1 - eth_price_drop cfg)"
    using pr P(1) by (simp add: shock_price)
  have rn: "run rng fuel cfg g = map_option (map_sum id history) (cascade fuel (shock s) 0 0)"
    using gen by (simp add: run_def)
  from gen P(1) pr P(4) sh rn show ?thesis by blast
qed

text \<open>
  A configuration whose liquidity depth is negative: generation yields the whale and the
  shock halves the price.
\<close>

theorem no_configuration_rejected_witness:
  "generate_users midpoint_rng (Sim_init invalid_depth_config) 0 =
     Inr ((Sim_init invalid_depth_config)\<lparr>users := [User_init 0 5500 6050000]\<rparr>, 44) \<and>
   price (eth_reserve (shock ((Sim_init invalid_depth_config)\<lparr>users := [User_init 0 5500 6050000]\<rparr>)))
     = 2000 * (1 - 0.5)"
proof -
  let ?S = "(Sim_init invalid_depth_config)\<lparr>users := [User_init 0 5500 6050000]\<rparr>"
  have gen: "generate_users midpoint_rng (Sim_init invalid_depth_config) 0 = Inr (?S, 44)"
    by code_simp
  have uni: "\<forall>a b g. a \<le> b \<longrightarrow> a \<le> fst (rnd_uniform midpoint_rng a b g)"
    using midpoint_rng_uniform by blast
  have c: "start_price invalid_depth_config = 2000" "eth_price_drop invalid_depth_config = 0.5"
    by code_simp+
  from no_configuration_rejected[OF uni, of invalid_depth_config 0 0] gen
  have "price (eth_reserve (shock ?S)) =
          start_price invalid_depth_config * (1 - eth_price_drop invalid_depth_config)"
    by auto
  with gen show ?thesis unfolding c by blast
qed

text \<open>
  Claim C5 as stated fails for that configuration: the run is not rejected, it returns a
  history of two snapshots, and the negative depth has raised the price in round 1.
\<close>

theorem invalid_configuration_runs_counterexample:
  "market_liquidity_depth invalid_depth_config < 0 \<and>
   run midpoint_rng 3 invalid_depth_config 0 =
     Some (Inr [\<lparr>stage = ''Post-Shock'', eth_price = 1000, total_bad_debt = 0,
                 liquidatable_cnt = 1, total_collateral_usd = 5500000\<rparr>,
                \<lparr>stage = ''Round 1'', eth_price = 162541 / 160, total_bad_debt = 0,
                 liquidatable_cnt = 1, total_collateral_usd = 302163719 / 128\<rparr>])"
  by code_simp

section \<open>Whales and retail\<close>

text \<open>
  Claim C6, as amended. The test of the code is \<^verbatim>\<open>i < num_users * whale_concentration\<close>
  with an integer on the left and the float product on the right, so the whales are the
  indices below the ceiling of that product as the machine computes it, not below the
  floor: the first \<open>\<lceil>float_product numUsers whaleConcentration\<rceil>\<close> positions take their
  collateral from \<^verbatim>\<open>uniform(1000, 10000)\<close> and all others take it from
  \<^verbatim>\<open>exponential(10)\<close>; position \<open>i\<close> has id \<open>i\<close>.
\<close>

theorem whales_below_the_product:
  assumes uni: "\<forall>a b g. a \<le> b \<longrightarrow> a \<le> fst (rnd_uniform rng a b g)"
  shows "\<exists>s g'. generate_users rng (Sim_init cfg) g = Inr (s, g') \<and>
           length (users s) = nat (num_users cfg) \<and>
           (\<forall>i<nat (num_users cfg). \<exists>gi.
              uid (users s ! i) = i \<and>
              eth_collateral (users s ! i) =
                (if int i < \<lceil>float_product (num_users cfg) (whale_concentration cfg)\<rceil>
                 then fst (rnd_uniform rng 1000 10000 gi)
                 else fst (rnd_exponential rng 10 gi)))"
proof -
  from generate_users_ok[OF uni, of "Sim_init cfg" g] obtain s g' where
    gen: "generate_users rng (Sim_init cfg) g = Inr (s, g')" by blast
  note P = generated_population[OF gen]
  have each: "\<exists>gi. uid (users s ! i) = i \<and>
              eth_collateral (users s ! i) =
                (if int i < \<lceil>float_product (num_users cfg) (whale_concentration cfg)\<rceil>
                 then fst (rnd_uniform rng 1000 10000 gi)
                 else fst (rnd_exponential rng 10 gi))"
    if i: "i < nat (num_users cfg)" for i
  proof -
    from P(5)[OF i] obtain gk gk' where
      "generate_user rng cfg (eth_reserve_init (start_price cfg)) i gk = Inr (users s ! i, gk')"
      by blast
    from generate_user_InrD[OF this] obtain d where
      u: "users s ! i = User_init i
            (fst (if is_whale cfg i then rnd_uniform rng 1000 10000 gk else rnd_exponential rng 10 gk)) d"
      by blast
    show ?thesis
      unfolding u is_whale_ceiling[symmetric]
      by (intro exI[of _ gk]) (simp add: User_init_def)
  qed
  from gen P(4) each show ?thesis by blast
qed

text \<open>
  Three users at a concentration of 0.5: the ceiling of 1.5 is 2, the second position holds
  a uniform draw and the third an exponential draw.
\<close>

theorem whales_below_the_product_witness:
  "generate_users midpoint_rng (Sim_init mixed_config) 0 =
     Inr ((Sim_init mixed_config)\<lparr>users := [User_init 0 5500 6050000, User_init 1 5500 6050000,
                                             User_init 2 10 (3300000 / 301)]\<rparr>, 48) \<and>
   \<lceil>float_product (num_users mixed_config) (whale_concentration mixed_config)\<rceil> = 2 \<and>
   (\<exists>gi. eth_collateral (User_init 1 5500 6050000) = fst (rnd_uniform midpoint_rng 1000 10000 gi)) \<and>
   (\<exists>gi. eth_collateral (User_init 2 10 (3300000 / 301)) = fst (rnd_exponential midpoint_rng 10 gi))"
proof -
  let ?S = "(Sim_init mixed_config)\<lparr>users := [User_init 0 5500 6050000, User_init 1 5500 6050000,
                                             User_init 2 10 (3300000 / 301)]\<rparr>"
  have gen: "generate_users midpoint_rng (Sim_init mixed_config) 0 = Inr (?S, 48)" by code_simp
  have uni: "\<forall>a b g. a \<le> b \<longrightarrow> a \<le> fst (rnd_uniform midpoint_rng a b g)"
    using midpoint_rng_uniform by blast
  have n: "nat (num_users mixed_config) = 3" by code_simp
  have c: "\<lceil>float_product (num_users mixed_config) (whale_concentration mixed_config)\<rceil> = 2"
    by code_simp
  from whales_below_the_product[OF uni, of mixed_config 0] gen
  have all: "\<forall>i<nat (num_users mixed_config). \<exists>gi.
              uid (users ?S ! i) = i \<and>
              eth_collateral (users ?S ! i) =
                (if int i < \<lceil>float_product (num_users mixed_config) (whale_concentration mixed_config)\<rceil>
                 then fst (rnd_uniform midpoint_rng 1000 10000 gi)
                 else fst (rnd_exponential midpoint_rng 10 gi))"
    by auto
  have "1 < nat (num_users mixed_config)" "2 < nat (num_users mixed_config)" unfolding n by simp_all
  with all have "\<exists>gi. uid (users ?S ! 1) = 1 \<and>
              eth_collateral (users ?S ! 1) =
                (if int 1 < \<lceil>float_product (num_users mixed_config) (whale_concentration mixed_config)\<rceil>
                 then fst (rnd_uniform midpoint_rng 1000 10000 gi)
                 else fst (rnd_exponential midpoint_rng 10 gi))"
    and "\<exists>gi. uid (users ?S ! 2) = 2 \<and>
              eth_collateral (users ?S ! 2) =
                (if int 2 < \<lceil>float_product (num_users mixed_config) (whale_concentration mixed_config)\<rceil>
                 then fst (rnd_uniform midpoint_rng 1000 10000 gi)
                 else fst (rnd_exponential midpoint_rng 10 gi))"
    by blast+
  then have "\<exists>gi. eth_collateral (User_init 1 5500 6050000) = fst (rnd_uniform midpoint_rng 1000 10000 gi)"
    and "\<exists>gi. eth_collateral (User_init 2 10 (3300000 / 301)) = fst (rnd_exponential midpoint_rng 10 gi)"
    unfolding c by simp_all
  with gen c show ?thesis by blast
qed

text \<open>
  Claim C6 as stated fails there: the floor of 1.5 is 1, yet index 1 is a whale; its
  collateral is the uniform draw 5500 and not the exponential draw 10 that the source
  would give in the same state.
\<close>

theorem whales_floor_counterexample:
  "\<lfloor>real_of_int (num_users mixed_config) * whale_concentration mixed_config\<rfloor> = 1 \<and>
   \<lfloor>float_product (num_users mixed_config) (whale_concentration mixed_config)\<rfloor> = 1 \<and>
   is_whale mixed_config 1 \<and>
   generate_users midpoint_rng (Sim_init mixed_config) 0 =
     Inr ((Sim_init mixed_config)\<lparr>users := [User_init 0 5500 6050000, User_init 1 5500 6050000,
                                             User_init 2 10 (3300000 / 301)]\<rparr>, 48) \<and>
   eth_collateral (User_init 1 5500 6050000) = 5500 \<and>
   rnd_uniform midpoint_rng 1000 10000 44 = (5500, 45) \<and>
   rnd_exponential midpoint_rng 10 44 = (10, 45)"
proof -
  have a: "\<lfloor>real_of_int (num_users mixed_config) * whale_concentration mixed_config\<rfloor> = 1"
    by (simp add: mixed_config_def)
  have a': "\<lfloor>float_product (num_users mixed_config) (whale_concentration mixed_config)\<rfloor> = 1"
    by code_simp
  have b: "is_whale mixed_config 1" by code_simp
  have c: "generate_users midpoint_rng (Sim_init mixed_config) 0 =
     Inr ((Sim_init mixed_config)\<lparr>users := [User_init 0 5500 6050000, User_init 1 5500 6050000,
                                             User_init 2 10 (3300000 / 301)]\<rparr>, 48)"
    by code_simp
  have d: "eth_collateral (User_init 1 5500 6050000) = 5500" by code_simp
  have e: "rnd_uniform midpoint_rng 1000 10000 44 = (5500, 45)" by (simp add: midpoint_rng_def)
  have f: "rnd_exponential midpoint_rng 10 44 = (10, 45)" by (simp add: midpoint_rng_def)
  from a a' b c d e f show ?thesis by blast
qed

section \<open>Collateral, debt and bad debt over a run\<close>

text \<open>
  Claim C7, as amended. Start from a population with no negative collateral or debt and
  no bad debt, and a liquidation bonus that is not negative. The shock changes no
  position. Between any two states of the run, the debt of a position has not increased,
  its bad debt has not decreased, and a bad debt that was nonzero has not changed (so it
  is assigned at most once). Its collateral has not increased over any stretch of rounds
  that each start at a positive price, whatever the prices before that stretch were.
\<close>

theorem positions_monotone:
  assumes before: "later_rounds i (shock s0) 0 = Some m"
    and after: "later_rounds k m i = Some t"
    and lbn: "0 \<le> lb (eth_reserve s0)"
    and j: "j < length (users s0)"
    and c0: "0 \<le> eth_collateral (users s0 ! j)"
    and d0: "0 \<le> usdc_debt (users s0 ! j)"
    and b0: "bad_debt (users s0 ! j) = 0"
  shows "users (shock s0) = users s0 \<and>
         usdc_debt (users t ! j) \<le> usdc_debt (users m ! j) \<and>
         bad_debt (users m ! j) \<le> bad_debt (users t ! j) \<and>
         (bad_debt (users m ! j) \<noteq> 0 \<longrightarrow> bad_debt (users t ! j) = bad_debt (users m ! j)) \<and>
         ((\<forall>i'<k. \<forall>x. later_rounds i' m i = Some x \<longrightarrow> 0 < price (eth_reserve x)) \<longrightarrow>
            eth_collateral (users t ! j) \<le> eth_collateral (users m ! j))"
proof -
  have ok0: "position_ok (users (shock s0) ! j)"
    using c0 d0 b0 by (simp add: shock_users position_ok_def)
  have j': "j < length (users (shock s0))" using j by (simp add: shock_users)
  have lb': "0 \<le> lb (eth_reserve (shock s0))" using lbn by (simp add: shock_lb)
  from later_rounds_position[OF before lb' j' ok0]
  have okm: "position_ok (users m ! j)" and lbm: "0 \<le> lb (eth_reserve m)"
    and jm: "j < length (users m)"
    using lb' j' by simp_all
  from later_rounds_position[OF after lbm jm okm] show ?thesis
    by (simp add: shock_users)
qed

text \<open>
  The rebound run: round 2 starts at a price of -1200, round 3 at 120. Over round 3 the
  whale's collateral and debt go down to 0 and its bad debt goes up from 0.
\<close>

theorem positions_monotone_witness:
  "map_option (\<lambda>s. price (eth_reserve s))
     (later_rounds 1 (shock ((Sim_init rebound_config)\<lparr>users := [User_init 0 5500 6050000]\<rparr>)) 0)
     = Some (- 1200) \<and>
   later_rounds 2 (shock ((Sim_init rebound_config)\<lparr>users := [User_init 0 5500 6050000]\<rparr>)) 0
     = Some rebound_round_2 \<and>
   price (eth_reserve rebound_round_2) = 120 \<and>
   later_rounds 1 rebound_round_2 2 = Some rebound_round_3 \<and>
   eth_collateral (users rebound_round_3 ! 0) \<le> eth_collateral (users rebound_round_2 ! 0) \<and>
   usdc_debt (users rebound_round_3 ! 0) \<le> usdc_debt (users rebound_round_2 ! 0) \<and>
   bad_debt (users rebound_round_2 ! 0) \<le> bad_debt (users rebound_round_3 ! 0)"
proof -
  let ?s0 = "(Sim_init rebound_config)\<lparr>users := [User_init 0 5500 6050000]\<rparr>"
  have n: "map_option (\<lambda>s. price (eth_reserve s)) (later_rounds 1 (shock ?s0) 0) = Some (- 1200)"
    by code_simp
  have a: "later_rounds 2 (shock ?s0) 0 = Some rebound_round_2" by code_simp
  have b: "later_rounds 1 rebound_round_2 2 = Some rebound_round_3" by code_simp
  have p: "price (eth_reserve rebound_round_2) = 120" by code_simp
  have c: "\<forall>i'<1. \<forall>x. later_rounds i' rebound_round_2 2 = Some x \<longrightarrow> 0 < price (eth_reserve x)"
    using p by simp
  have d: "0 \<le> lb (eth_reserve ?s0)" by code_simp
  have e: "0 < length (users ?s0)" by code_simp
  have f: "0 \<le> eth_collateral (users ?s0 ! 0)" by code_simp
  have g: "0 \<le> usdc_debt (users ?s0 ! 0)" by code_simp
  have h: "bad_debt (users ?s0 ! 0) = 0" by code_simp
  from positions_monotone[OF a b d e f g h] c n a p b show ?thesis by blast
qed

text \<open>
  Claim C7 as stated fails in the thin market: the first round leaves a negative price,
  the seizure of the second round is then negative, and the partial liquidation raises
  the whale's collateral from 2323.75 to 295229495/127046 (about 2323.80).
\<close>

theorem positions_monotone_counterexample:
  "generate_users midpoint_rng (Sim_init thin_market_config) 0 =
     Inr ((Sim_init thin_market_config)\<lparr>users := [User_init 0 5500 6050000]\<rparr>, 44) \<and>
   map_option (\<lambda>s. (price (eth_reserve s), eth_collateral (users s ! 0)))
     (later_rounds 1 (shock ((Sim_init thin_market_config)\<lparr>users := [User_init 0 5500 6050000]\<rparr>)) 0)
     = Some (- 31761500, 9295 / 4) \<and>
   map_option (\<lambda>s. (price (eth_reserve s), eth_collateral (users s ! 0)))
     (later_rounds 2 (shock ((Sim_init thin_market_config)\<lparr>users := [User_init 0 5500 6050000]\<rparr>)) 0)
     = Some (504380560375, 295229495 / 127046) \<and>
   (9295 / 4 :: real) < 295229495 / 127046"
  by code_simp

section \<open>A price drop of zero\<close>

text \<open>
  Claim C8. With a price drop of 0 and a generated population whose health factors are
  all at least 1.01, the shock leaves the price at the start price, the selection of
  round 1 is empty, the loop returns at once (with any positive bound on the rounds), and
  the history of the run is the single snapshot labelled Post-Shock.
\<close>

theorem zero_drop_single_snapshot:
  assumes drop: "eth_price_drop cfg = 0"
    and gen: "generate_users rng (Sim_init cfg) g = Inr (s, g')"
    and healthy: "list_all (\<lambda>u. hf_ge (calculate_hf u (eth_reserve s)) 1.01) (users s)"
  shows "price (eth_reserve (shock s)) = start_price cfg \<and>
         liquidatable_users (eth_reserve (shock s)) (users (shock s)) = [] \<and>
         cascade (Suc fuel) (shock s) 0 0 = Some (Inr (shock s)) \<and>
         run rng (Suc fuel) cfg g =
           Some (Inr [\<lparr>stage = ''Post-Shock'', eth_price = start_price cfg, total_bad_debt = 0,
                       liquidatable_cnt = 0,
                       total_collateral_usd =
                         sum_list (map (\<lambda>u. eth_collateral u * start_price cfg) (users s))\<rparr>])"
proof -
  note P = generated_population[OF gen]
  have pr: "price (eth_reserve s) = start_price cfg"
    using P(2) by (simp add: eth_reserve_init_def)
  have shk: "shock s = snapshot_state s ''Post-Shock''"
    using drop P(1) by (simp add: shock_def Let_def)
  have res: "eth_reserve (shock s) = eth_reserve s"
    unfolding shk by (simp add: snapshot_state_def)
  have us: "users (shock s) = users s" by (rule shock_users)
  have none: "\<not> hf_lt (calculate_hf u (eth_reserve s)) 1.0" if "u \<in> set (users s)" for u
    using healthy that healthy_not_liquidatable by (auto simp: list_all_iff)
  have cnt: "filter (\<lambda>u. hf_lt (calculate_hf u (eth_reserve s)) 1.0) (users s) = []"
    using none by (simp add: filter_empty_conv)
  have sel: "liquidatable_users (eth_reserve (shock s)) (users (shock s)) = []"
    unfolding res us liquidatable_users_def using none by (simp add: filter_empty_conv)
  have rd: "cascade_round (shock s) (0 + 1) = Inr None"
    using sel by (simp add: cascade_round_def)
  have cas: "cascade (Suc fuel) (shock s) 0 0 = Some (Inr (shock s))"
    using rd by simp
  have hist: "history (shock s) =
      [\<lparr>stage = ''Post-Shock'', eth_price = start_price cfg, total_bad_debt = 0,
        liquidatable_cnt = 0,
        total_collateral_usd = sum_list (map (\<lambda>u. eth_collateral u * start_price cfg) (users s))\<rparr>]"
    unfolding shk using P(3) pr cnt fresh_bad_debt[OF gen]
    by (simp add: snapshot_state_def)
  have rn: "run rng (Suc fuel) cfg g = Some (Inr (history (shock s)))"
    unfolding run_def using gen cas by simp
  from res pr sel cas rn hist show ?thesis by simp
qed

text \<open>
  Two whales with health factor 1.5 and no price drop: the run returns one snapshot.
\<close>

theorem zero_drop_single_snapshot_witness:
  "run midpoint_rng (Suc 0) split_config 0 =
     Some (Inr [\<lparr>stage = ''Post-Shock'', eth_price = 2000, total_bad_debt = 0,
                 liquidatable_cnt = 0, total_collateral_usd = 22000000\<rparr>])"
proof -
  let ?S = "(Sim_init split_config)\<lparr>users := [User_init 0 5500 6050000, User_init 1 5500 6050000]\<rparr>"
  have drop: "eth_price_drop split_config = 0" by code_simp
  have gen: "generate_users midpoint_rng (Sim_init split_config) 0 = Inr (?S, 46)" by code_simp
  have healthy: "list_all (\<lambda>u. hf_ge (calculate_hf u (eth_reserve ?S)) 1.01) (users ?S)"
    by code_simp
  have sp: "start_price split_config = 2000" by code_simp
  have tot: "sum_list (map (\<lambda>u. eth_collateral u * 2000) (users ?S)) = 22000000" by code_simp
  from zero_drop_single_snapshot[OF drop gen healthy, of 0] show ?thesis
    unfolding sp tot by blast
qed

section \<open>Determinism of generation\<close>

text \<open>
  Claim C9. \<^verbatim>\<open>generate_users\<close> reseeds the random source with 42 before its first
  draw, so for a fixed configuration two executions give the same result (the same
  users, position by position, or the same error) whatever state the source was in; this
  holds for the copy in \<^verbatim>\<open>app.py\<close> and for the copy in the batch script.
\<close>

theorem generation_deterministic:
  "generate_users rng (Sim_init cfg) g1 = generate_users rng (Sim_init cfg) g2 \<and>
   generate_users_b rng Sim_b_init g1 = generate_users_b rng Sim_b_init g2"
  by (simp add: generate_users_def generate_users_b_def)

section \<open>The two entry points\<close>

text \<open>
  Claim C10. For the configuration of \<^verbatim>\<open>app.py\<close> that equals the constants of the batch
  script (price drop 0.30, depth 2000000, 1000 users, whale concentration 0.01, start
  price 2000; LT 0.825, LB 0.05 and seed 42 are fixed in both files), the batch script
  and \<^verbatim>\<open>run\<close> give the same outcome for every random source, whatever state it was in, and
  every bound on the number of rounds: the same history, snapshot by snapshot, or the
  same error, or both still running when the bound is reached.
\<close>

theorem entry_points_equivalent:
  "main_b rng fuel g = run rng fuel batch_equivalent_config g'"
proof -
  have gen: "generate_users rng (Sim_init batch_equivalent_config) g'
               = map_sum id (\<lambda>(s', g'). (embed_b s', g')) (generate_users_b rng Sim_b_init g)"
    unfolding Sim_init_batch generate_users_b_eq[symmetric]
    by (simp add: generate_users_b_def)
  show ?thesis
  proof (cases "generate_users_b rng Sim_b_init g")
    case (Inl e)
    with gen show ?thesis by (simp add: main_b_def run_def)
  next
    case (Inr res)
    obtain s g1 where res: "res = (s, g1)" by (cases res)
    have "map_option (map_sum id history) (cascade fuel (shock (embed_b s)) 0 0)
            = map_option (map_sum id history_b) (run_liquidation_cascade fuel (run_shock_phase s) 0 0)"
      unfolding run_shock_phase_eq[symmetric] run_liquidation_cascade_eq[symmetric]
      by (simp add: option.map_comp sum.map_comp comp_def embed_b_sel id_def)
    with Inr res gen show ?thesis by (simp add: main_b_def run_def)
  qed
qed

end
